theory Spec2Isabelle
  imports Main "HOL-Library.Word" "HOL-Library.Sublist"
begin

section \<open>Strings of the script\<close>

text \<open>
  A JavaScript string is a sequence of 16-bit code units.  Literals of the script are
  written \<open>js ''...''\<close>; code units outside ASCII are given by their number.
\<close>

type_synonym jschar = "16 word"
type_synonym jsstring = "jschar list"

definition js :: "string \<Rightarrow> jsstring" where
  "js s = map of_char s"

text \<open>
  \<^verbatim>\<open>String.prototype.trim\<close> removes the code units of the classes WhiteSpace and
  LineTerminator from both ends.
\<close>

definition is_white_space :: "jschar \<Rightarrow> bool" where
  "is_white_space c \<longleftrightarrow>
     c = 0x09 \<or> c = 0x0A \<or> c = 0x0B \<or> c = 0x0C \<or> c = 0x0D \<or> c = 0x20 \<or> c = 0xA0 \<or>
     c = 0x1680 \<or> (0x2000 \<le> c \<and> c \<le> 0x200A) \<or> c = 0x2028 \<or> c = 0x2029 \<or>
     c = 0x202F \<or> c = 0x205F \<or> c = 0x3000 \<or> c = 0xFEFF"

definition trim :: "jsstring \<Rightarrow> jsstring" where
  "trim s = rev (dropWhile is_white_space (rev (dropWhile is_white_space s)))"

text \<open>\<^verbatim>\<open>s.includes(t)\<close>: \<open>t\<close> occurs in \<open>s\<close> at some position.\<close>

fun String_includes :: "jsstring \<Rightarrow> jsstring \<Rightarrow> bool" where
  "String_includes [] t = (t = [])"
| "String_includes (c # cs) t = (prefix t (c # cs) \<or> String_includes cs t)"

text \<open>
  \<^verbatim>\<open>Number.prototype.toString(radix)\<close> on an integral number: digits \<open>0-9a-z\<close>, a
  minus sign for a negative number.
\<close>

definition digit_char :: "nat \<Rightarrow> jschar" where
  "digit_char d = (if d < 10 then of_nat (48 + d) else of_nat (87 + d))"

function radix_digits :: "nat \<Rightarrow> nat \<Rightarrow> jsstring" where
  "radix_digits b n =
     (if n < b \<or> b < 2 then [digit_char n]
      else radix_digits b (n div b) @ [digit_char (n mod b)])"
  by pat_completeness auto
termination
  by (relation "measure (\<lambda>(b, n). n)") auto

definition Number_toString :: "nat \<Rightarrow> int \<Rightarrow> jsstring" where
  "Number_toString radix n =
     (if n < 0 then 0x2D # radix_digits radix (nat (- n)) else radix_digits radix (nat n))"

section \<open>Values and exceptions\<close>

text \<open>
  \<^verbatim>\<open>this.notes\<close> holds either what \<^verbatim>\<open>saveNote\<close> and \<^verbatim>\<open>deleteNote\<close> build or whatever
  \<^verbatim>\<open>JSON.parse\<close> returned, so the values of the model are the JSON values.  An object is
  the list of its properties in creation order.  Numbers are the integers; a number with a
  fraction is outside the model.  \<open>None\<close> of type \<open>json option\<close> is \<^verbatim>\<open>undefined\<close>.
\<close>

datatype json =
    JNull
  | JBool bool
  | JNum int
  | JStr jsstring
  | JArr "json list"
  | JObj "(jsstring \<times> json) list"

datatype error = TypeError | SyntaxError | QuotaExceededError | SecurityError | SelectorNotModelled

text \<open>A computation that throws stops at the first exception.\<close>

definition and_then :: "error + 'a \<Rightarrow> ('a \<Rightarrow> error + 'b) \<Rightarrow> error + 'b" where
  "and_then r f = (case r of Inl e \<Rightarrow> Inl e | Inr x \<Rightarrow> f x)"

text \<open>
  Reading a property that no prototype defines (\<^verbatim>\<open>id\<close>, \<^verbatim>\<open>content\<close>, \<^verbatim>\<open>dateCreated\<close>):
  \<^verbatim>\<open>null\<close> throws, an object answers with its own property, every other value with
  \<^verbatim>\<open>undefined\<close>.
\<close>

fun get_property :: "json \<Rightarrow> jsstring \<Rightarrow> error + json option" where
  "get_property JNull k = Inl TypeError"
| "get_property (JObj kvs) k = Inr (map_of kvs k)"
| "get_property v k = Inr None"

text \<open>
  \<^verbatim>\<open>ToString\<close>, as a template literal and \<^verbatim>\<open>setAttribute\<close> apply it.  An array is joined
  with commas, \<^verbatim>\<open>null\<close> elements giving the empty string; an object is
  \<^verbatim>\<open>[object Object]\<close>, unless an own property hides \<^verbatim>\<open>toString\<close> with a value that
  cannot be called.
\<close>

fun json_ToString :: "json \<Rightarrow> error + jsstring"
  and join_elements :: "json list \<Rightarrow> error + jsstring" where
  "json_ToString JNull = Inr (js ''null'')"
| "json_ToString (JBool b) = Inr (if b then js ''true'' else js ''false'')"
| "json_ToString (JNum n) = Inr (Number_toString 10 n)"
| "json_ToString (JStr s) = Inr s"
| "json_ToString (JArr xs) = join_elements xs"
| "json_ToString (JObj kvs) =
     (if js ''toString'' \<in> fst ` set kvs then Inl TypeError else Inr (js ''[object Object]''))"
| "join_elements [] = Inr []"
| "join_elements (x # xs) =
     and_then (if x = JNull then Inr [] else json_ToString x) (\<lambda>s.
       if xs = [] then Inr s
       else and_then (join_elements xs) (\<lambda>r. Inr (s @ 0x2C # r)))"

definition ToString :: "json option \<Rightarrow> error + jsstring" where
  "ToString v = (case v of None \<Rightarrow> Inr (js ''undefined'') | Some x \<Rightarrow> json_ToString x)"

section \<open>Rendering one note\<close>

text \<open>
  \<^verbatim>\<open>escapeHtml(text)\<close> stores \<open>text\<close> as the text content of a fresh element and reads
  the element's markup back.  The setter takes \<^verbatim>\<open>null\<close> and \<^verbatim>\<open>undefined\<close> as the empty
  string; the getter writes a text node with \<open>&\<close>, \<open><\<close>, \<open>>\<close> and the no-break space
  replaced by character references.
\<close>

definition escape_char :: "jschar \<Rightarrow> jsstring" where
  \<open>escape_char c =
     (if c = 0x26 then js ''&amp;''
      else if c = 0x3C then js ''&lt;''
      else if c = 0x3E then js ''&gt;''
      else if c = 0xA0 then js ''&nbsp;''
      else [c])\<close>

definition serialize_text :: "jsstring \<Rightarrow> jsstring" where
  "serialize_text s = concat (map escape_char s)"

definition set_textContent :: "json option \<Rightarrow> error + jsstring" where
  "set_textContent v =
     (case v of None \<Rightarrow> Inr [] | Some JNull \<Rightarrow> Inr [] | Some x \<Rightarrow> json_ToString x)"

definition escapeHtml :: "json option \<Rightarrow> error + jsstring" where
  "escapeHtml text = and_then (set_textContent text) (\<lambda>textContent. Inr (serialize_text textContent))"

text \<open>
  An element built by \<^verbatim>\<open>createNoteElement\<close>: its class list, its \<^verbatim>\<open>data-note-id\<close>
  attribute and the markup assigned to its \<^verbatim>\<open>innerHTML\<close>.
\<close>

record element =
  classes :: "jsstring list"
  data_note_id :: jsstring
  innerHTML :: jsstring

text \<open>A line break of the template literal, followed by its indentation.\<close>

definition nl :: "nat \<Rightarrow> jsstring" where
  "nl k = 0x0A # replicate k 0x20"

text \<open>The template literal of \<^verbatim>\<open>createNoteElement\<close>, with its three interpolations.\<close>

definition note_template :: "jsstring \<Rightarrow> jsstring \<Rightarrow> jsstring \<Rightarrow> jsstring" where
  \<open>note_template escaped dateCreated_text id_text =
     nl 12 @ js ''<div class="note-content">'' @ escaped @ js ''</div>'' @
     nl 12 @ js ''<div class="note-footer">'' @
     nl 16 @ js ''<span class="note-date">'' @ dateCreated_text @ js ''</span>'' @
     nl 16 @ js ''<button class="delete-btn" onclick="notesApp.deleteNote('' @ [0x27] @
       id_text @ [0x27] @ js '')">'' @
     nl 20 @ [0xD83D, 0xDDD1, 0xFE0F] @ js '' Delete'' @
     nl 16 @ js ''</button>'' @
     nl 12 @ js ''</div>'' @
     nl 8\<close>

definition createNoteElement :: "json \<Rightarrow> error + element" where
  "createNoteElement note =
     and_then (get_property note (js ''id'')) (\<lambda>note_id.
     and_then (ToString note_id) (\<lambda>attr.
     and_then (get_property note (js ''content'')) (\<lambda>note_content.
     and_then (escapeHtml note_content) (\<lambda>escaped.
     and_then (get_property note (js ''dateCreated'')) (\<lambda>note_dateCreated.
     and_then (ToString note_dateCreated) (\<lambda>dateCreated_text.
     and_then (ToString note_id) (\<lambda>id_text.
       Inr \<lparr>classes = [js ''note''], data_note_id = attr,
            innerHTML = note_template escaped dateCreated_text id_text\<rparr>)))))))"

text \<open>
  The note object that \<^verbatim>\<open>saveNote\<close> builds: four string properties, in the order of
  the object literal.
\<close>

record Note =
  note_id :: jsstring
  content :: jsstring
  timestamp :: jsstring
  dateCreated :: jsstring

definition note_json :: "Note \<Rightarrow> json" where
  "note_json n =
     JObj [(js ''id'', JStr (note_id n)), (js ''content'', JStr (content n)),
           (js ''timestamp'', JStr (timestamp n)), (js ''dateCreated'', JStr (dateCreated n))]"



section \<open>JSON text\<close>

text \<open>
  \<^verbatim>\<open>JSON.stringify\<close> without indentation.  A string is quoted; the quote, the backslash
  and the control characters are escaped, and so is a surrogate that has no partner.
\<close>

definition is_high_surrogate :: "jschar \<Rightarrow> bool" where
  "is_high_surrogate c \<longleftrightarrow> 0xD800 \<le> c \<and> c \<le> 0xDBFF"

definition is_low_surrogate :: "jschar \<Rightarrow> bool" where
  "is_low_surrogate c \<longleftrightarrow> 0xDC00 \<le> c \<and> c \<le> 0xDFFF"

definition unicode_escape :: "jschar \<Rightarrow> jsstring" where
  "unicode_escape c =
     [0x5C, 0x75, digit_char (unat c div 4096), digit_char (unat c div 256 mod 16),
      digit_char (unat c div 16 mod 16), digit_char (unat c mod 16)]"

fun quote_chars :: "jsstring \<Rightarrow> jsstring" where
  "quote_chars [] = []"
| "quote_chars (c # cs) =
     (if c = 0x08 then [0x5C, 0x62] @ quote_chars cs
      else if c = 0x09 then [0x5C, 0x74] @ quote_chars cs
      else if c = 0x0A then [0x5C, 0x6E] @ quote_chars cs
      else if c = 0x0C then [0x5C, 0x66] @ quote_chars cs
      else if c = 0x0D then [0x5C, 0x72] @ quote_chars cs
      else if c = 0x22 then [0x5C, 0x22] @ quote_chars cs
      else if c = 0x5C then [0x5C, 0x5C] @ quote_chars cs
      else if c < 0x20 then unicode_escape c @ quote_chars cs
      else if is_high_surrogate c then
        (case cs of
           [] \<Rightarrow> unicode_escape c
         | d # ds \<Rightarrow>
             if is_low_surrogate d then c # d # quote_chars ds
             else unicode_escape c @ quote_chars cs)
      else if is_low_surrogate c then unicode_escape c @ quote_chars cs
      else c # quote_chars cs)"

definition JSON_quote :: "jsstring \<Rightarrow> jsstring" where
  "JSON_quote s = 0x22 # quote_chars s @ [0x22]"

fun JSON_stringify :: "json \<Rightarrow> jsstring"
  and stringify_elements :: "json list \<Rightarrow> jsstring"
  and stringify_members :: "(jsstring \<times> json) list \<Rightarrow> jsstring" where
  "JSON_stringify JNull = js ''null''"
| "JSON_stringify (JBool b) = (if b then js ''true'' else js ''false'')"
| "JSON_stringify (JNum n) = Number_toString 10 n"
| "JSON_stringify (JStr s) = JSON_quote s"
| "JSON_stringify (JArr xs) = 0x5B # stringify_elements xs @ [0x5D]"
| "JSON_stringify (JObj kvs) = 0x7B # stringify_members kvs @ [0x7D]"
| "stringify_elements [] = []"
| "stringify_elements (x # xs) =
     JSON_stringify x @ (if xs = [] then [] else 0x2C # stringify_elements xs)"
| "stringify_members [] = []"
| "stringify_members (kv # kvs) =
     JSON_quote (fst kv) @ 0x3A # JSON_stringify (snd kv) @
     (if kvs = [] then [] else 0x2C # stringify_members kvs)"

text \<open>
  \<^verbatim>\<open>JSON.parse\<close>, by recursive descent.  The first argument of the three mutually
  recursive functions bounds the depth of the calls; \<open>JSON_parse\<close> starts them with more
  than the text can use.  \<open>None\<close> is the \<^verbatim>\<open>SyntaxError\<close> that \<^verbatim>\<open>JSON.parse\<close> throws.
  A number is read when it is an integer literal; a fraction or an exponent is outside the
  model and is rejected.
\<close>

definition is_json_ws :: "jschar \<Rightarrow> bool" where
  "is_json_ws c \<longleftrightarrow> c = 0x20 \<or> c = 0x09 \<or> c = 0x0A \<or> c = 0x0D"

definition skip_ws :: "jsstring \<Rightarrow> jsstring" where
  "skip_ws s = dropWhile is_json_ws s"

definition hex_value :: "jschar \<Rightarrow> nat option" where
  "hex_value c =
     (if 0x30 \<le> c \<and> c \<le> 0x39 then Some (unat c - 48)
      else if 0x61 \<le> c \<and> c \<le> 0x66 then Some (unat c - 87)
      else if 0x41 \<le> c \<and> c \<le> 0x46 then Some (unat c - 55)
      else None)"

definition unescape :: "jschar \<Rightarrow> jschar option" where
  "unescape e =
     (if e = 0x22 then Some 0x22
      else if e = 0x5C then Some 0x5C
      else if e = 0x2F then Some 0x2F
      else if e = 0x62 then Some 0x08
      else if e = 0x66 then Some 0x0C
      else if e = 0x6E then Some 0x0A
      else if e = 0x72 then Some 0x0D
      else if e = 0x74 then Some 0x09
      else None)"

definition hex4 :: "jschar \<Rightarrow> jschar \<Rightarrow> jschar \<Rightarrow> jschar \<Rightarrow> jschar option" where
  "hex4 a b c d =
     (case (hex_value a, hex_value b, hex_value c, hex_value d) of
        (Some h3, Some h2, Some h1, Some h0) \<Rightarrow> Some (of_nat (h3 * 4096 + h2 * 256 + h1 * 16 + h0))
      | _ \<Rightarrow> None)"

text \<open>The characters of a string literal after its opening quote, and the text after it.\<close>

fun parse_chars :: "jsstring \<Rightarrow> (jsstring \<times> jsstring) option" where
  "parse_chars [] = None"
| "parse_chars (c # cs) =
     (if c = 0x22 then Some ([], cs)
      else if c = 0x5C then
        (case cs of
           [] \<Rightarrow> None
         | e # es \<Rightarrow>
             if e = 0x75 then
               (case es of
                  h3 # h2 # h1 # h0 # r \<Rightarrow>
                    (case hex4 h3 h2 h1 h0 of
                       None \<Rightarrow> None
                     | Some x \<Rightarrow> map_option (apfst ((#) x)) (parse_chars r))
                | _ \<Rightarrow> None)
             else
               (case unescape e of
                  None \<Rightarrow> None
                | Some x \<Rightarrow> map_option (apfst ((#) x)) (parse_chars es)))
      else if c < 0x20 then None
      else map_option (apfst ((#) c)) (parse_chars cs))"

definition is_digit :: "jschar \<Rightarrow> bool" where
  "is_digit c \<longleftrightarrow> 0x30 \<le> c \<and> c \<le> 0x39"

definition digits_value :: "jsstring \<Rightarrow> int" where
  "digits_value ds = foldl (\<lambda>a d. 10 * a + (int (unat d) - 48)) 0 ds"

definition starts_fraction :: "jsstring \<Rightarrow> bool" where
  "starts_fraction r = (case r of [] \<Rightarrow> False | c # cs \<Rightarrow> c = 0x2E \<or> c = 0x65 \<or> c = 0x45)"

definition parse_digits :: "jsstring \<Rightarrow> (int \<times> jsstring) option" where
  "parse_digits s =
     (case s of
        [] \<Rightarrow> None
      | c # cs \<Rightarrow>
          if c = 0x30 then Some (0, cs)
          else if is_digit c then Some (digits_value (takeWhile is_digit s), dropWhile is_digit s)
          else None)"

definition parse_number :: "jsstring \<Rightarrow> (json \<times> jsstring) option" where
  "parse_number s =
     (case (case s of
              [] \<Rightarrow> None
            | c # cs \<Rightarrow>
                if c = 0x2D then map_option (apfst uminus) (parse_digits cs) else parse_digits s) of
        None \<Rightarrow> None
      | Some (n, r) \<Rightarrow> if starts_fraction r then None else Some (JNum n, r))"

text \<open>
  Creating the properties of an object in the order of the text: a name that comes again
  replaces the value and keeps the place of the first.
\<close>

fun set_property :: "(jsstring \<times> json) list \<Rightarrow> jsstring \<times> json \<Rightarrow> (jsstring \<times> json) list" where
  "set_property [] kv = [kv]"
| "set_property (p # ps) kv = (if fst p = fst kv then kv # ps else p # set_property ps kv)"

definition create_object :: "(jsstring \<times> json) list \<Rightarrow> json" where
  "create_object members = JObj (foldl set_property [] members)"

fun parse_value :: "nat \<Rightarrow> jsstring \<Rightarrow> (json \<times> jsstring) option"
  and parse_elements :: "nat \<Rightarrow> jsstring \<Rightarrow> (json list \<times> jsstring) option"
  and parse_members :: "nat \<Rightarrow> jsstring \<Rightarrow> ((jsstring \<times> json) list \<times> jsstring) option" where
  "parse_value 0 s = None"
| "parse_value (Suc n) s =
     (case skip_ws s of
        [] \<Rightarrow> None
      | c # cs \<Rightarrow>
          if c = 0x22 then map_option (apfst JStr) (parse_chars cs)
          else if c = 0x5B then
            (case skip_ws cs of
               [] \<Rightarrow> None
             | d # ds \<Rightarrow>
                 if d = 0x5D then Some (JArr [], ds)
                 else map_option (apfst JArr) (parse_elements n cs))
          else if c = 0x7B then
            (case skip_ws cs of
               [] \<Rightarrow> None
             | d # ds \<Rightarrow>
                 if d = 0x7D then Some (JObj [], ds)
                 else map_option (apfst create_object) (parse_members n cs))
          else if prefix (js ''null'') (c # cs) then Some (JNull, drop 4 (c # cs))
          else if prefix (js ''true'') (c # cs) then Some (JBool True, drop 4 (c # cs))
          else if prefix (js ''false'') (c # cs) then Some (JBool False, drop 5 (c # cs))
          else parse_number (c # cs))"
| "parse_elements 0 s = None"
| "parse_elements (Suc n) s =
     (case parse_value n s of
        None \<Rightarrow> None
      | Some (v, r) \<Rightarrow>
          (case skip_ws r of
             [] \<Rightarrow> None
           | c # cs \<Rightarrow>
               if c = 0x5D then Some ([v], cs)
               else if c = 0x2C then map_option (apfst ((#) v)) (parse_elements n cs)
               else None))"
| "parse_members 0 s = None"
| "parse_members (Suc n) s =
     (case skip_ws s of
        [] \<Rightarrow> None
      | q # s1 \<Rightarrow>
          if q \<noteq> 0x22 then None
          else
            (case parse_chars s1 of
               None \<Rightarrow> None
             | Some (k, r) \<Rightarrow>
                 (case skip_ws r of
                    [] \<Rightarrow> None
                  | c # cs \<Rightarrow>
                      if c \<noteq> 0x3A then None
                      else
                        (case parse_value n cs of
                           None \<Rightarrow> None
                         | Some (v, r2) \<Rightarrow>
                             (case skip_ws r2 of
                                [] \<Rightarrow> None
                              | d # ds \<Rightarrow>
                                  if d = 0x7D then Some ([(k, v)], ds)
                                  else if d = 0x2C then
                                    map_option (apfst ((#) (k, v))) (parse_members n ds)
                                  else None)))))"

definition JSON_parse :: "jsstring \<Rightarrow> json option" where
  "JSON_parse s =
     (case parse_value (2 * length s + 2) s of
        None \<Rightarrow> None
      | Some (v, r) \<Rightarrow> if skip_ws r = [] then Some v else None)"

section \<open>The page and the platform\<close>

text \<open>
  What the script reads from the platform during one call: the clock (\<^verbatim>\<open>Date.now()\<close> and
  the two \<^verbatim>\<open>new Date()\<close> of \<^verbatim>\<open>saveNote\<close>, as milliseconds), the base-36 text of the
  number drawn by \<^verbatim>\<open>Math.random()\<close>, the answer to \<^verbatim>\<open>confirm\<close>, the exception, if
  any, of a storage call, and the library functions whose tables are not part of the
  script.
\<close>

record DateTimeFormatOptions =
  year :: jsstring
  month :: jsstring
  day :: jsstring
  hour :: jsstring
  minute :: jsstring

record env =
  Date_now :: int
  Math_random_36 :: jsstring
  new_Date_first :: int
  new_Date_second :: int
  confirm :: bool
  setItem_error :: "error option"
  getItem_error :: "error option"
  toISOString :: "int \<Rightarrow> jsstring"
  toLocaleDateString :: "int \<Rightarrow> jsstring \<Rightarrow> DateTimeFormatOptions \<Rightarrow> jsstring"
  toLowerCase :: "jsstring \<Rightarrow> jsstring"

text \<open>
  A child of the notes container is a note element, or markup assigned to
  \<^verbatim>\<open>innerHTML\<close> (the two placeholders).  A notice is an element appended to the body;
  \<open>ref\<close> is its identity, which the timers of \<^verbatim>\<open>showMessage\<close> hold.
\<close>

datatype node = Markup jsstring | NoteElement element

record message =
  ref :: nat
  className :: jsstring
  background :: jsstring
  textContent :: jsstring
  animation :: jsstring

datatype timer =
    Delete_timer jsstring
  | Dismiss_timer nat
  | Remove_timer nat

datatype event =
    Ev_setItem jsstring jsstring
  | Ev_getItem jsstring
  | Ev_console_error jsstring
  | Ev_confirm jsstring
  | Ev_clear_container
  | Ev_focus

text \<open>
  The state: \<^verbatim>\<open>this.notes\<close>, the value of the textarea, the children of the notes
  container, the notices in the body, the value stored under the key \<^verbatim>\<open>notesApp\<close>, the
  timers that have not fired yet (with their delay in milliseconds), the next element
  identity, and the calls made to the platform so far.
\<close>

record app =
  this_notes :: json
  noteInput_value :: jsstring
  notesContainer :: "node list"
  body_messages :: "message list"
  localStorage :: "jsstring option"
  timers :: "(nat \<times> timer) list"
  next_ref :: nat
  trace :: "event list"

text \<open>
  A call ends normally with the new state (\<open>Inr\<close>), or throws (\<open>Inl\<close>) and leaves the
  state as it was at the throw.
\<close>

type_synonym outcome = "(error \<times> app) + app"

definition state_of :: "outcome \<Rightarrow> app" where
  "state_of r = (case r of Inl (e, st) \<Rightarrow> st | Inr st \<Rightarrow> st)"

section \<open>The methods of NotesApp\<close>

definition showMessage :: "jsstring \<Rightarrow> jsstring \<Rightarrow> app \<Rightarrow> app" where
  \<open>showMessage message type st =
     (let remaining = (case body_messages st of [] \<Rightarrow> [] | existingMessage # ms \<Rightarrow> ms);
          messageDiv = \<lparr>ref = next_ref st,
            className = js ''message message-'' @ type,
            background =
              (if type = js ''success'' then js ''#2ed573''
               else if type = js ''error'' then js ''#ff4757''
               else js ''#5352ed''),
            textContent = message,
            animation = js ''slideInRight 0.3s ease-out''\<rparr>
      in st\<lparr>body_messages := remaining @ [messageDiv],
            timers := timers st @ [(3000, Dismiss_timer (next_ref st))],
            next_ref := Suc (next_ref st)\<rparr>)\<close>

definition saveToLocalStorage :: "env \<Rightarrow> app \<Rightarrow> app" where
  "saveToLocalStorage E st =
     (let text = JSON_stringify (this_notes st);
          st1 = st\<lparr>trace := trace st @ [Ev_setItem (js ''notesApp'') text]\<rparr>
      in case setItem_error E of
           None \<Rightarrow> st1\<lparr>localStorage := Some text\<rparr>
         | Some e \<Rightarrow>
             showMessage (js ''Error saving notes. Storage might be full.'') (js ''error'')
               (st1\<lparr>trace := trace st1 @
                  [Ev_console_error (js ''Error saving notes to localStorage:'')]\<rparr>))"

definition loadNotes :: "env \<Rightarrow> app \<Rightarrow> app" where
  "loadNotes E st =
     (let st1 = st\<lparr>trace := trace st @ [Ev_getItem (js ''notesApp'')]\<rparr>;
          failed = st1\<lparr>this_notes := JArr [],
            trace := trace st1 @ [Ev_console_error (js ''Error loading notes from localStorage:'')]\<rparr>
      in case getItem_error E of
           Some e \<Rightarrow> failed
         | None \<Rightarrow>
             (case localStorage st1 of
                None \<Rightarrow> st1
              | Some storedNotes \<Rightarrow>
                  if storedNotes = [] then st1
                  else
                    (case JSON_parse storedNotes of
                       None \<Rightarrow> failed
                     | Some v \<Rightarrow> st1\<lparr>this_notes := v\<rparr>)))"

text \<open>
  \<^verbatim>\<open>forEach\<close>, \<^verbatim>\<open>filter\<close> and \<^verbatim>\<open>unshift\<close> exist on arrays only: on any other value the
  call throws.  \<^verbatim>\<open>x.length === 0\<close> throws on \<^verbatim>\<open>null\<close>, holds of the empty array and
  the empty string, and of an object only through an own property.
\<close>

definition as_array :: "json \<Rightarrow> error + json list" where
  "as_array v = (case v of JArr xs \<Rightarrow> Inr xs | _ \<Rightarrow> Inl TypeError)"

definition length_is_zero :: "json \<Rightarrow> error + bool" where
  "length_is_zero v =
     (case v of
        JNull \<Rightarrow> Inl TypeError
      | JArr xs \<Rightarrow> Inr (xs = [])
      | JStr s \<Rightarrow> Inr (s = [])
      | JObj kvs \<Rightarrow> Inr (map_of kvs (js ''length'') = Some (JNum 0))
      | _ \<Rightarrow> Inr False)"

definition empty_state_markup :: jsstring where
  \<open>empty_state_markup =
     nl 12 @ js ''<div class="empty-state">'' @
     nl 16 @ js ''<p>No notes yet. Add your first note above!</p>'' @
     nl 12 @ js ''</div>'' @
     nl 8\<close>

definition no_match_markup :: jsstring where
  \<open>no_match_markup =
     nl 16 @ js ''<div class="empty-state">'' @
     nl 20 @ js ''<p>No notes found matching your search.</p>'' @
     nl 16 @ js ''</div>'' @
     nl 12\<close>

definition showEmptyState :: "app \<Rightarrow> app" where
  "showEmptyState st = st\<lparr>notesContainer := [Markup empty_state_markup]\<rparr>"

text \<open>The loop of \<^verbatim>\<open>showNotes\<close> and \<^verbatim>\<open>displayFilteredNotes\<close>.\<close>

fun append_notes :: "json list \<Rightarrow> app \<Rightarrow> outcome" where
  "append_notes [] st = Inr st"
| "append_notes (note # rest) st =
     (case createNoteElement note of
        Inl e \<Rightarrow> Inl (e, st)
      | Inr noteElement \<Rightarrow>
          append_notes rest (st\<lparr>notesContainer := notesContainer st @ [NoteElement noteElement]\<rparr>))"

definition clear_container :: "app \<Rightarrow> app" where
  "clear_container st = st\<lparr>notesContainer := [], trace := trace st @ [Ev_clear_container]\<rparr>"

definition showNotes :: "app \<Rightarrow> outcome" where
  "showNotes st =
     (let st1 = clear_container st
      in case length_is_zero (this_notes st1) of
           Inl e \<Rightarrow> Inl (e, st1)
         | Inr True \<Rightarrow> Inr (showEmptyState st1)
         | Inr False \<Rightarrow>
             (case as_array (this_notes st1) of
                Inl e \<Rightarrow> Inl (e, st1)
              | Inr xs \<Rightarrow> append_notes xs st1))"

definition displayFilteredNotes :: "json list \<Rightarrow> app \<Rightarrow> outcome" where
  "displayFilteredNotes filteredNotes st =
     (let st1 = clear_container st
      in if filteredNotes = [] then Inr (st1\<lparr>notesContainer := [Markup no_match_markup]\<rparr>)
         else append_notes filteredNotes st1)"

definition clearInput :: "app \<Rightarrow> app" where
  "clearInput st = st\<lparr>noteInput_value := [], trace := trace st @ [Ev_focus]\<rparr>"

definition generateId :: "env \<Rightarrow> jsstring" where
  "generateId E = Number_toString 36 (Date_now E) @ drop 2 (Math_random_36 E)"

definition formatDate :: "env \<Rightarrow> int \<Rightarrow> jsstring" where
  "formatDate E date =
     (let options = \<lparr>year = js ''numeric'', month = js ''short'', day = js ''numeric'',
            hour = js ''2-digit'', minute = js ''2-digit''\<rparr>
      in toLocaleDateString E date (js ''en-US'') options)"

definition saveNote :: "env \<Rightarrow> app \<Rightarrow> outcome" where
  "saveNote E st =
     (let noteText = trim (noteInput_value st)
      in if noteText = [] then
           Inr (showMessage (js ''Please enter a note before adding!'') (js ''error'') st)
         else
           (let note = note_json \<lparr>note_id = generateId E, content = noteText,
                  timestamp = toISOString E (new_Date_first E),
                  dateCreated = formatDate E (new_Date_second E)\<rparr>
            in case as_array (this_notes st) of
                 Inl e \<Rightarrow> Inl (e, st)
               | Inr xs \<Rightarrow>
                   (case showNotes (saveToLocalStorage E (st\<lparr>this_notes := JArr (note # xs)\<rparr>)) of
                      Inl thrown \<Rightarrow> Inl thrown
                    | Inr st3 \<Rightarrow>
                        Inr (showMessage (js ''Note added successfully!'') (js ''success'')
                          (clearInput st3)))))"

text \<open>
  \<^verbatim>\<open>document.querySelector\<close> with the selector \<^verbatim>\<open>[data-note-id="..."]\<close>: the first note
  element, in document order, whose attribute is the identifier.  This is what the
  selector means when the identifier has no code unit that a quoted string of a selector
  treats specially; for the other identifiers the model stops with
  \<open>SelectorNotModelled\<close>.  Markup inside a note element is not searched.
\<close>

definition selector_plain :: "jsstring \<Rightarrow> bool" where
  "selector_plain noteId \<longleftrightarrow>
     list_all (\<lambda>c. c \<noteq> 0x00 \<and> c \<noteq> 0x0A \<and> c \<noteq> 0x0C \<and> c \<noteq> 0x0D \<and> c \<noteq> 0x22 \<and>
       c \<noteq> 0x5C \<and> \<not> is_high_surrogate c \<and> \<not> is_low_surrogate c) noteId"

fun querySelector :: "jsstring \<Rightarrow> node list \<Rightarrow> nat option" where
  "querySelector noteId [] = None"
| "querySelector noteId (Markup m # ns) = map_option Suc (querySelector noteId ns)"
| "querySelector noteId (NoteElement el # ns) =
     (if data_note_id el = noteId then Some 0 else map_option Suc (querySelector noteId ns))"

definition classList_add :: "jsstring \<Rightarrow> node \<Rightarrow> node" where
  "classList_add token n =
     (case n of
        Markup m \<Rightarrow> Markup m
      | NoteElement el \<Rightarrow>
          NoteElement (if token \<in> set (classes el) then el else el\<lparr>classes := classes el @ [token]\<rparr>))"

definition deleteNote :: "env \<Rightarrow> jsstring \<Rightarrow> app \<Rightarrow> outcome" where
  "deleteNote E noteId st =
     (let st1 = st\<lparr>trace := trace st @
            [Ev_confirm (js ''Are you sure you want to delete this note?'')]\<rparr>
      in if confirm E then
           (if \<not> selector_plain noteId then Inl (SelectorNotModelled, st1)
            else
              (case querySelector noteId (notesContainer st1) of
                 None \<Rightarrow> Inr st1
               | Some i \<Rightarrow>
                   Inr (st1\<lparr>notesContainer :=
                          (notesContainer st1)[i := classList_add (js ''removing'') (notesContainer st1 ! i)],
                        timers := timers st1 @ [(300, Delete_timer noteId)]\<rparr>)))
         else Inr st1)"

text \<open>
  The filter of the timer callback of \<^verbatim>\<open>deleteNote\<close>: \<^verbatim>\<open>note.id !== noteId\<close> keeps every
  note whose \<^verbatim>\<open>id\<close> is not the string \<open>noteId\<close>.
\<close>

fun filter_other_ids :: "jsstring \<Rightarrow> json list \<Rightarrow> error + json list" where
  "filter_other_ids noteId [] = Inr []"
| "filter_other_ids noteId (note # rest) =
     and_then (get_property note (js ''id'')) (\<lambda>note_id.
     and_then (filter_other_ids noteId rest) (\<lambda>kept.
       Inr (if note_id \<noteq> Some (JStr noteId) then note # kept else kept)))"

definition delete_callback :: "env \<Rightarrow> jsstring \<Rightarrow> app \<Rightarrow> outcome" where
  "delete_callback E noteId st =
     (case and_then (as_array (this_notes st)) (filter_other_ids noteId) of
        Inl e \<Rightarrow> Inl (e, st)
      | Inr kept \<Rightarrow>
          (case showNotes (saveToLocalStorage E (st\<lparr>this_notes := JArr kept\<rparr>)) of
             Inl thrown \<Rightarrow> Inl thrown
           | Inr st3 \<Rightarrow> Inr (showMessage (js ''Note deleted successfully!'') (js ''success'') st3)))"

text \<open>
  The filter of \<^verbatim>\<open>searchNotes\<close>.  \<^verbatim>\<open>note.content.toLowerCase()\<close> throws unless the
  content is a string.
\<close>

fun filter_matching :: "env \<Rightarrow> jsstring \<Rightarrow> json list \<Rightarrow> error + json list" where
  "filter_matching E query [] = Inr []"
| "filter_matching E query (note # rest) =
     and_then (get_property note (js ''content'')) (\<lambda>note_content.
       case note_content of
         Some (JStr s) \<Rightarrow>
           and_then (filter_matching E query rest) (\<lambda>kept.
             Inr (if String_includes (toLowerCase E s) (toLowerCase E query)
                  then note # kept else kept))
       | _ \<Rightarrow> Inl TypeError)"

definition searchNotes :: "env \<Rightarrow> jsstring \<Rightarrow> app \<Rightarrow> outcome" where
  "searchNotes E query st =
     (if trim query = [] then showNotes st
      else
        (case and_then (as_array (this_notes st)) (filter_matching E query) of
           Inl e \<Rightarrow> Inl (e, st)
         | Inr filteredNotes \<Rightarrow> displayFilteredNotes filteredNotes st))"

definition getNotesCount :: "app \<Rightarrow> error + json option" where
  "getNotesCount st =
     (case this_notes st of
        JNull \<Rightarrow> Inl TypeError
      | JArr xs \<Rightarrow> Inr (Some (JNum (int (length xs))))
      | JStr s \<Rightarrow> Inr (Some (JNum (int (length s))))
      | JObj kvs \<Rightarrow> Inr (map_of kvs (js ''length''))
      | _ \<Rightarrow> Inr None)"

text \<open>
  The two timers of \<^verbatim>\<open>showMessage\<close>: after 3000 ms the notice, if it is still in the
  page, starts its exit animation, and 300 ms later it is removed.
\<close>

definition dismiss_callback :: "nat \<Rightarrow> app \<Rightarrow> app" where
  \<open>dismiss_callback r st =
     (if r \<in> ref ` set (body_messages st) then
        st\<lparr>body_messages :=
             map (\<lambda>m. if ref m = r then m\<lparr>animation := js ''slideOutRight 0.3s ease-out''\<rparr> else m)
               (body_messages st),
           timers := timers st @ [(300, Remove_timer r)]\<rparr>
      else st)\<close>

definition remove_callback :: "nat \<Rightarrow> app \<Rightarrow> app" where
  "remove_callback r st = st\<lparr>body_messages := filter (\<lambda>m. ref m \<noteq> r) (body_messages st)\<rparr>"

text \<open>The \<open>i\<close>-th pending timer fires: it leaves the list and its callback runs.\<close>

definition fire_timer :: "env \<Rightarrow> nat \<Rightarrow> app \<Rightarrow> outcome" where
  "fire_timer E i st =
     (if i < length (timers st) then
        (let st1 = st\<lparr>timers := take i (timers st) @ drop (Suc i) (timers st)\<rparr>
         in case snd (timers st ! i) of
              Delete_timer noteId \<Rightarrow> delete_callback E noteId st1
            | Dismiss_timer r \<Rightarrow> Inr (dismiss_callback r st1)
            | Remove_timer r \<Rightarrow> Inr (remove_callback r st1))
      else Inr st)"

text \<open>
  The constructor with \<^verbatim>\<open>init\<close>, on a page that has just been loaded and finds
  \<open>stored\<close> under the key.
\<close>

definition fresh_page :: "jsstring option \<Rightarrow> app" where
  "fresh_page stored =
     \<lparr>this_notes = JArr [], noteInput_value = [], notesContainer = [], body_messages = [],
      localStorage = stored, timers = [], next_ref = 0, trace = []\<rparr>"

definition init :: "env \<Rightarrow> app \<Rightarrow> outcome" where
  "init E st = showNotes (loadNotes E st)"

definition NotesApp :: "env \<Rightarrow> jsstring option \<Rightarrow> outcome" where
  "NotesApp E stored = init E (fresh_page stored)"

section \<open>Sequences of operations\<close>

text \<open>
  The operations of the specification: create types a text and saves it, delete asks for
  the deletion of an identifier, a pending timer fires, search, persist, load.  After a
  call that throws, the page goes on from the state at the throw.
\<close>

datatype action =
    Create env jsstring
  | Delete env jsstring
  | Fire env nat
  | Search env jsstring
  | Persist env
  | Load env

definition perform :: "action \<Rightarrow> app \<Rightarrow> app" where
  "perform a st =
     (case a of
        Create E text \<Rightarrow> state_of (saveNote E (st\<lparr>noteInput_value := text\<rparr>))
      | Delete E noteId \<Rightarrow> state_of (deleteNote E noteId st)
      | Fire E i \<Rightarrow> state_of (fire_timer E i st)
      | Search E query \<Rightarrow> state_of (searchNotes E query st)
      | Persist E \<Rightarrow> saveToLocalStorage E st
      | Load E \<Rightarrow> loadNotes E st)"

definition run :: "action list \<Rightarrow> app \<Rightarrow> app" where
  "run as st = foldl (\<lambda>s a. perform a s) st as"

text \<open>The identifiers that \<^verbatim>\<open>note.id\<close> reads from the elements of the list.\<close>

definition ids_of :: "json \<Rightarrow> (error + json option) list" where
  "ids_of v = (case v of JArr xs \<Rightarrow> map (\<lambda>note. get_property note (js ''id'')) xs | _ \<Rightarrow> [])"

text \<open>
  Every create of the sequence draws an identifier that no note of the list has at that
  moment.
\<close>

fun fresh_ids :: "action list \<Rightarrow> app \<Rightarrow> bool" where
  "fresh_ids [] st = True"
| "fresh_ids (a # as) st =
     ((case a of
         Create E text \<Rightarrow>
           trim text = [] \<or> Inr (Some (JStr (generateId E))) \<notin> set (ids_of (this_notes st))
       | _ \<Rightarrow> True) \<and>
      fresh_ids as (perform a st))"

section \<open>Notation for the statements and example data\<close>

text \<open>
  The element that \<^verbatim>\<open>createNoteElement\<close> builds for a note of four strings (lemma
  \<open>createNoteElement_note\<close> below), and the children of the container after a render of
  such notes.
\<close>

definition note_element :: "Note \<Rightarrow> element" where
  "note_element n =
     \<lparr>classes = [js ''note''], data_note_id = note_id n,
      innerHTML = note_template (serialize_text (content n)) (dateCreated n) (note_id n)\<rparr>"

definition rendered :: "Note list \<Rightarrow> node list" where
  "rendered ns = map (\<lambda>n. NoteElement (note_element n)) ns"

definition error_notice :: "nat \<Rightarrow> jsstring \<Rightarrow> message" where
  \<open>error_notice r text =
     \<lparr>ref = r, className = js ''message message-error'', background = js ''#ff4757'',
      textContent = text, animation = js ''slideInRight 0.3s ease-out''\<rparr>\<close>

definition success_notice :: "nat \<Rightarrow> jsstring \<Rightarrow> message" where
  \<open>success_notice r text =
     \<lparr>ref = r, className = js ''message message-success'', background = js ''#2ed573'',
      textContent = text, animation = js ''slideInRight 0.3s ease-out''\<rparr>\<close>

text \<open>A platform for the examples: lower case on ASCII letters, fixed clock and draw.\<close>

definition ascii_toLowerCase :: "jsstring \<Rightarrow> jsstring" where
  "ascii_toLowerCase s = map (\<lambda>c. if 0x41 \<le> c \<and> c \<le> 0x5A then c + 0x20 else c) s"

definition example_env :: env where
  "example_env =
     \<lparr>Date_now = 1000, Math_random_36 = js ''0.4fzyo82mvyr'',
      new_Date_first = 1000, new_Date_second = 1000,
      confirm = True, setItem_error = None, getItem_error = None,
      toISOString = (\<lambda>t. js ''1970-01-01T00:00:01.000Z''),
      toLocaleDateString = (\<lambda>t locale options. js ''Jan 1, 1970, 12:00 AM''),
      toLowerCase = ascii_toLowerCase\<rparr>"

definition example_note :: "jsstring \<Rightarrow> jsstring \<Rightarrow> Note" where
  "example_note i c =
     \<lparr>note_id = i, content = c, timestamp = js ''1970-01-01T00:00:01.000Z'',
      dateCreated = js ''Jan 1, 1970, 12:00 AM''\<rparr>"

text \<open>The note that \<^verbatim>\<open>saveNote\<close> builds from a text.\<close>

definition new_note :: "env \<Rightarrow> jsstring \<Rightarrow> Note" where
  "new_note E text =
     \<lparr>note_id = generateId E, content = trim text,
      timestamp = toISOString E (new_Date_first E),
      dateCreated = formatDate E (new_Date_second E)\<rparr>"

text \<open>
  A page on which two notes were created, one second apart, and a search then left only
  the second on display.
\<close>

definition later_env :: env where
  "later_env = example_env\<lparr>Date_now := 2000\<rparr>"

definition filtered_page :: app where
  "filtered_page =
     run [Create example_env (js ''Buy milk''), Create later_env (js ''Call mom''),
          Search example_env (js ''call'')] (fresh_page None)"

text \<open>
  What every page built from the empty one satisfies, as long as the identifiers drawn are
  fresh: the list is a list of notes with distinct identifiers, and so is the list whose
  text is in the storage.
\<close>

definition distinct_notes :: "json \<Rightarrow> bool" where
  "distinct_notes v \<longleftrightarrow> (\<exists>ns. v = JArr (map note_json ns) \<and> distinct (map note_id ns))"

definition page_invariant :: "app \<Rightarrow> bool" where
  "page_invariant st \<longleftrightarrow>
     distinct_notes (this_notes st) \<and>
     (case localStorage st of
        None \<Rightarrow> True
      | Some text \<Rightarrow> \<exists>v. text = JSON_stringify v \<and> distinct_notes v)"

text \<open>
  A parser \<open>p\<close> with bound \<open>n\<close> has enough with twice the number of code units it reads:
  what it returns under \<open>n\<close> it returns under every larger bound.
\<close>

definition enough :: "(nat \<Rightarrow> jsstring \<Rightarrow> ('a \<times> jsstring) option) \<Rightarrow> nat \<Rightarrow> bool" where
  "enough p n \<longleftrightarrow>
     (\<forall>s x r. p n s = Some (x, r) \<longrightarrow>
        length r < length s \<and> (\<forall>m. 2 * (length s - length r) \<le> m \<longrightarrow> p m s = Some (x, r)))"

section \<open>Basic facts\<close>

lemma and_then_Inr [simp]: "and_then (Inr x) f = f x"
  by (simp add: and_then_def)

lemma and_then_Inl [simp]: "and_then (Inl e) f = Inl e"
  by (simp add: and_then_def)

lemma js_Nil [simp]: "js [] = []"
  by (simp add: js_def)

lemma unat_of_char: "unat (of_char c :: jschar) = of_char c"
proof -
  have "(of_char c :: nat) < 256" by simp
  then have "(of_char c :: nat) < 65536" by (rule less_trans) simp
  then have "unat (of_nat (of_char c :: nat) :: jschar) = (of_char c :: nat)"
    by (simp add: unat_of_nat)
  then show ?thesis by (simp only: of_nat_of_char)
qed

lemma js_inject [simp]: "js s = js t \<longleftrightarrow> s = t"
proof
  assume "js s = js t"
  then have "map unat (js s) = map unat (js t)" by simp
  then have "map (of_char :: char \<Rightarrow> nat) s = map of_char t"
    by (simp add: js_def unat_of_char comp_def)
  then have "map char_of (map (of_char :: char \<Rightarrow> nat) s) =
      map char_of (map (of_char :: char \<Rightarrow> nat) t)"
    by simp
  then show "s = t" by simp
qed simp

section \<open>What one rendered note contains\<close>

lemma note_properties:
  "get_property (note_json n) (js ''id'') = Inr (Some (JStr (note_id n)))"
  "get_property (note_json n) (js ''content'') = Inr (Some (JStr (content n)))"
  "get_property (note_json n) (js ''dateCreated'') = Inr (Some (JStr (dateCreated n)))"
  by (simp_all add: note_json_def)

lemma createNoteElement_note:
  "createNoteElement (note_json n) =
     Inr \<lparr>classes = [js ''note''], data_note_id = note_id n,
          innerHTML = note_template (serialize_text (content n)) (dateCreated n) (note_id n)\<rparr>"
  by (simp add: createNoteElement_def note_properties ToString_def escapeHtml_def
      set_textContent_def)






text \<open>
  C9.  Only the content is escaped.  The markup of a note holds the \<open>dateCreated\<close> string
  and the id as they are, the id between the quotes of the call in the \<open>onclick\<close>
  attribute, whatever code units they are made of.
\<close>

theorem date_and_id_rendered_raw:
  \<open>createNoteElement (note_json n) =
     Inr \<lparr>classes = [js ''note''], data_note_id = note_id n,
          innerHTML =
            nl 12 @ js ''<div class="note-content">'' @ serialize_text (content n) @ js ''</div>'' @
            nl 12 @ js ''<div class="note-footer">'' @
            nl 16 @ js ''<span class="note-date">'' @ dateCreated n @ js ''</span>'' @
            nl 16 @ js ''<button class="delete-btn" onclick="notesApp.deleteNote('' @ [0x27] @
              note_id n @ [0x27] @ js '')">'' @
            nl 20 @ [0xD83D, 0xDDD1, 0xFE0F] @ js '' Delete'' @
            nl 16 @ js ''</button>'' @
            nl 12 @ js ''</div>'' @
            nl 8\<rparr>\<close>
  by (simp add: createNoteElement_note note_template_def)

theorem date_and_id_rendered_raw_witness:
  \<open>createNoteElement (note_json \<lparr>note_id = js ''x<y'', content = js ''a<b'',
       timestamp = js ''t'', dateCreated = js ''<b>now</b>''\<rparr>) =
     Inr \<lparr>classes = [js ''note''], data_note_id = js ''x<y'',
          innerHTML =
            nl 12 @ js ''<div class="note-content">'' @ js ''a&lt;b'' @ js ''</div>'' @
            nl 12 @ js ''<div class="note-footer">'' @
            nl 16 @ js ''<span class="note-date">'' @ js ''<b>now</b>'' @ js ''</span>'' @
            nl 16 @ js ''<button class="delete-btn" onclick="notesApp.deleteNote('' @ [0x27] @
              js ''x<y'' @ [0x27] @ js '')">'' @
            nl 20 @ [0xD83D, 0xDDD1, 0xFE0F] @ js '' Delete'' @
            nl 16 @ js ''</button>'' @
            nl 12 @ js ''</div>'' @
            nl 8\<rparr>\<close>
proof -
  have esc: "serialize_text (js ''a<b'') = js ''a&lt;b''"
    by (simp add: serialize_text_def escape_char_def js_def)
  show ?thesis
    using date_and_id_rendered_raw [of "\<lparr>note_id = js ''x<y'', content = js ''a<b'',
      timestamp = js ''t'', dateCreated = js ''<b>now</b>''\<rparr>"]
    by (simp add: esc)
qed

section \<open>Saving, persisting and searching\<close>

declare radix_digits.simps [simp del]

lemma js_eq_Nil [simp]: "js s = [] \<longleftrightarrow> s = []" "[] = js s \<longleftrightarrow> s = []"
  by (auto simp: js_def)

lemma js_append: "js (a @ b) = js a @ js b"
  by (simp add: js_def)

lemma showMessage_fields [simp]:
  "this_notes (showMessage m t st) = this_notes st"
  "noteInput_value (showMessage m t st) = noteInput_value st"
  "notesContainer (showMessage m t st) = notesContainer st"
  "localStorage (showMessage m t st) = localStorage st"
  "trace (showMessage m t st) = trace st"
  "timers (showMessage m t st) = timers st @ [(3000, Dismiss_timer (next_ref st))]"
  "next_ref (showMessage m t st) = Suc (next_ref st)"
  by (simp_all add: showMessage_def Let_def)

lemma showMessage_error_last:
  "last (body_messages (showMessage m (js ''error'') st)) = error_notice (next_ref st) m"
  by (simp add: showMessage_def Let_def error_notice_def js_append [symmetric])

text \<open>
  C6.  When the text of the textarea is empty or white space, \<open>saveNote\<close> ends normally,
  leaves the list, the storage and the container as they are, makes no platform call, and
  shows the validation notice, with its dismissal timer.
\<close>

theorem blank_input_rejected:
  assumes "trim (noteInput_value st) = []"
  shows "\<exists>st'. saveNote E st = Inr st' \<and>
           this_notes st' = this_notes st \<and>
           localStorage st' = localStorage st \<and>
           notesContainer st' = notesContainer st \<and>
           trace st' = trace st \<and>
           last (body_messages st') =
             error_notice (next_ref st) (js ''Please enter a note before adding!'') \<and>
           timers st' = timers st @ [(3000, Dismiss_timer (next_ref st))]"
  using assms by (simp add: saveNote_def showMessage_error_last)

lemma saveToLocalStorage_notes [simp]:
  "this_notes (saveToLocalStorage E st) = this_notes st"
  "noteInput_value (saveToLocalStorage E st) = noteInput_value st"
  "notesContainer (saveToLocalStorage E st) = notesContainer st"
  by (simp_all add: saveToLocalStorage_def Let_def split: option.split)

lemma saveToLocalStorage_trace:
  "trace (saveToLocalStorage E st) =
     trace st @ Ev_setItem (js ''notesApp'') (JSON_stringify (this_notes st)) #
       (case setItem_error E of None \<Rightarrow> []
        | Some e \<Rightarrow> [Ev_console_error (js ''Error saving notes to localStorage:'')])"
  by (simp add: saveToLocalStorage_def Let_def split: option.split)

lemma createNoteElement_element: "createNoteElement (note_json n) = Inr (note_element n)"
  by (simp add: createNoteElement_note note_element_def)

lemma append_notes_rendered:
  "append_notes (map note_json ns) st =
     Inr (st\<lparr>notesContainer := notesContainer st @ rendered ns\<rparr>)"
  by (induction ns arbitrary: st) (simp_all add: rendered_def createNoteElement_element)

lemma clear_container_fields [simp]:
  "this_notes (clear_container st) = this_notes st"
  "noteInput_value (clear_container st) = noteInput_value st"
  "notesContainer (clear_container st) = []"
  "localStorage (clear_container st) = localStorage st"
  "body_messages (clear_container st) = body_messages st"
  "timers (clear_container st) = timers st"
  "next_ref (clear_container st) = next_ref st"
  "trace (clear_container st) = trace st @ [Ev_clear_container]"
  by (simp_all add: clear_container_def)

lemma showNotes_note_list:
  assumes "this_notes st = JArr (map note_json ns)"
  shows "showNotes st =
     Inr ((clear_container st)\<lparr>notesContainer :=
        (if ns = [] then [Markup empty_state_markup] else rendered ns)\<rparr>)"
  using assms
  by (simp add: showNotes_def Let_def length_is_zero_def as_array_def showEmptyState_def
      append_notes_rendered)

lemma getNotesCount_note_list:
  "this_notes st = JArr (map note_json ns) \<Longrightarrow>
     getNotesCount st = Inr (Some (JNum (int (length ns))))"
  by (simp add: getNotesCount_def)




lemma String_includes_sublist: "String_includes s t \<longleftrightarrow> sublist t s"
  by (induction s) (simp_all add: sublist_Cons_right)

lemma filter_matching_note_list:
  "filter_matching E query (map note_json ns) =
     Inr (map note_json
       (filter (\<lambda>n. sublist (toLowerCase E query) (toLowerCase E (content n))) ns))"
  by (induction ns) (simp_all add: note_properties String_includes_sublist)



lemma trim_blank: "trim (js ''   '' @ [0x09, 0x0A]) = []"
  by (simp add: trim_def js_def is_white_space_def)

theorem blank_input_rejected_witness:
  "trim (js ''   '' @ [0x09, 0x0A]) = [] \<and>
   (\<exists>st'. saveNote example_env ((fresh_page None)\<lparr>noteInput_value := js ''   '' @ [0x09, 0x0A]\<rparr>) =
        Inr st' \<and>
      this_notes st' = JArr [] \<and> localStorage st' = None \<and> trace st' = [] \<and>
      last (body_messages st') = error_notice 0 (js ''Please enter a note before adding!''))"
  using blank_input_rejected
    [of "(fresh_page None)\<lparr>noteInput_value := js ''   '' @ [0x09, 0x0A]\<rparr>" example_env]
  by (auto simp: trim_blank fresh_page_def)



section \<open>Loading and deleting\<close>

lemma JSON_parse_examples:
  "JSON_parse (js ''{}'') = Some (JObj [])"
  "JSON_parse (js ''5'') = Some (JNum 5)"
  by code_simp+

text \<open>
  C10.  \<open>loadNotes\<close> does not look at the shape of what it parsed: with \<open>{}\<close> or \<open>5\<close> in
  the storage it returns normally and \<open>this.notes\<close> is the object, or the number, which is
  not an array.
\<close>

theorem load_keeps_non_array:
  "loadNotes (E\<lparr>getItem_error := None\<rparr>) (st\<lparr>localStorage := Some (js ''{}'')\<rparr>) =
     st\<lparr>localStorage := Some (js ''{}''), this_notes := JObj [],
        trace := trace st @ [Ev_getItem (js ''notesApp'')]\<rparr> \<and>
   loadNotes (E\<lparr>getItem_error := None\<rparr>) (st\<lparr>localStorage := Some (js ''5'')\<rparr>) =
     st\<lparr>localStorage := Some (js ''5''), this_notes := JNum 5,
        trace := trace st @ [Ev_getItem (js ''notesApp'')]\<rparr> \<and>
   as_array (JObj []) = Inl TypeError \<and> as_array (JNum 5) = Inl TypeError"
  by (simp add: loadNotes_def Let_def JSON_parse_examples as_array_def)

theorem load_keeps_non_array_witness:
  "this_notes (loadNotes example_env (fresh_page (Some (js ''{}'')))) = JObj [] \<and>
   this_notes (loadNotes example_env (fresh_page (Some (js ''5'')))) = JNum 5"
  using load_keeps_non_array [of example_env "fresh_page None"]
  by (simp add: fresh_page_def example_env_def)

lemma filter_other_ids_note_list:
  "filter_other_ids x (map note_json ns) =
     Inr (map note_json (filter (\<lambda>m. note_id m \<noteq> x) ns))"
  by (induction ns) (simp_all add: note_properties)

lemma deleteNote_this_notes: "this_notes (state_of (deleteNote E x st)) = this_notes st"
  by (simp add: deleteNote_def state_of_def Let_def split: option.split)

section \<open>Pages built by sequences of operations\<close>

lemma generateId_examples:
  "generateId example_env = js ''rs4fzyo82mvyr''"
  "generateId later_env = js ''1jk4fzyo82mvyr''"
  by code_simp+

lemma saveNote_note_list:
  assumes "trim (noteInput_value st) \<noteq> []"
    and "this_notes st = JArr (map note_json ns)"
  shows "saveNote E st =
     Inr (showMessage (js ''Note added successfully!'') (js ''success'')
       (clearInput ((clear_container (saveToLocalStorage E
          (st\<lparr>this_notes := JArr (map note_json (new_note E (noteInput_value st) # ns))\<rparr>)))
        \<lparr>notesContainer := rendered (new_note E (noteInput_value st) # ns)\<rparr>)))"
proof -
  let ?new = "new_note E (noteInput_value st)"
  let ?st1 = "saveToLocalStorage E (st\<lparr>this_notes := JArr (map note_json (?new # ns))\<rparr>)"
  have "this_notes ?st1 = JArr (map note_json (?new # ns))" by simp
  from showNotes_note_list [OF this] show ?thesis
    using assms by (simp add: saveNote_def Let_def as_array_def new_note_def)
qed

lemma searchNotes_note_list:
  assumes "trim query \<noteq> []" and "this_notes st = JArr (map note_json ns)"
  shows "searchNotes E query st =
     Inr ((clear_container st)\<lparr>notesContainer :=
       (if filter (\<lambda>n. sublist (toLowerCase E query) (toLowerCase E (content n))) ns = []
        then [Markup no_match_markup]
        else rendered (filter (\<lambda>n. sublist (toLowerCase E query) (toLowerCase E (content n))) ns))\<rparr>)"
  using assms
  by (simp add: searchNotes_def as_array_def filter_matching_note_list displayFilteredNotes_def
      Let_def append_notes_rendered)

lemma clearInput_fields [simp]:
  "this_notes (clearInput st) = this_notes st"
  "notesContainer (clearInput st) = notesContainer st"
  "localStorage (clearInput st) = localStorage st"
  "body_messages (clearInput st) = body_messages st"
  "timers (clearInput st) = timers st"
  "next_ref (clearInput st) = next_ref st"
  by (simp_all add: clearInput_def)

lemma saveToLocalStorage_ok:
  "setItem_error E = None \<Longrightarrow>
     saveToLocalStorage E st =
       st\<lparr>trace := trace st @ [Ev_setItem (js ''notesApp'') (JSON_stringify (this_notes st))],
          localStorage := Some (JSON_stringify (this_notes st))\<rparr>"
  by (simp add: saveToLocalStorage_def Let_def)


lemma example_env_fields [simp]:
  "confirm example_env" "setItem_error example_env = None" "getItem_error example_env = None"
  "toLowerCase example_env = ascii_toLowerCase"
  "setItem_error later_env = None"
  by (simp_all add: example_env_def later_env_def)

lemma perform_Create_ok:
  assumes "trim t \<noteq> []" and "this_notes st = JArr (map note_json ns)"
    and "setItem_error E = None"
  shows "this_notes (perform (Create E t) st) = JArr (map note_json (new_note E t # ns))"
    and "notesContainer (perform (Create E t) st) = rendered (new_note E t # ns)"
    and "timers (perform (Create E t) st) = timers st @ [(3000, Dismiss_timer (next_ref st))]"
    and "next_ref (perform (Create E t) st) = Suc (next_ref st)"
proof -
  have "saveNote E (st\<lparr>noteInput_value := t\<rparr>) =
     Inr (showMessage (js ''Note added successfully!'') (js ''success'')
       (clearInput ((clear_container (saveToLocalStorage E
          (st\<lparr>noteInput_value := t, this_notes := JArr (map note_json (new_note E t # ns))\<rparr>)))
        \<lparr>notesContainer := rendered (new_note E t # ns)\<rparr>)))"
    using saveNote_note_list [of "st\<lparr>noteInput_value := t\<rparr>" ns E] assms by simp
  then show "this_notes (perform (Create E t) st) = JArr (map note_json (new_note E t # ns))"
    and "notesContainer (perform (Create E t) st) = rendered (new_note E t # ns)"
    and "timers (perform (Create E t) st) = timers st @ [(3000, Dismiss_timer (next_ref st))]"
    and "next_ref (perform (Create E t) st) = Suc (next_ref st)"
    using assms(3) by (simp_all add: perform_def state_of_def saveToLocalStorage_ok)
qed

lemma perform_Search_shown:
  assumes "trim q \<noteq> []" and "this_notes st = JArr (map note_json ns)"
  shows "this_notes (perform (Search E q) st) = this_notes st"
    and "timers (perform (Search E q) st) = timers st"
    and "notesContainer (perform (Search E q) st) =
       (if filter (\<lambda>n. sublist (toLowerCase E q) (toLowerCase E (content n))) ns = []
        then [Markup no_match_markup]
        else rendered (filter (\<lambda>n. sublist (toLowerCase E q) (toLowerCase E (content n))) ns))"
  using searchNotes_note_list [OF assms, of E]
  by (simp_all add: perform_def state_of_def)

lemma example_trims:
  "trim (js ''Buy milk'') = js ''Buy milk''"
  "trim (js ''Call mom'') = js ''Call mom''"
  "trim (js ''call'') = js ''call''"
  by (simp_all add: trim_def js_def is_white_space_def)

lemma example_call_matches:
  "\<not> sublist (ascii_toLowerCase (js ''call'')) (ascii_toLowerCase (js ''Buy milk''))"
  "sublist (ascii_toLowerCase (js ''call'')) (ascii_toLowerCase (js ''Call mom''))"
  by (simp_all add: String_includes_sublist [symmetric] ascii_toLowerCase_def js_def)

lemma filtered_page_fields:
  "this_notes filtered_page =
     JArr (map note_json [new_note later_env (js ''Call mom''), new_note example_env (js ''Buy milk'')])"
  "notesContainer filtered_page = rendered [new_note later_env (js ''Call mom'')]"
  "timers filtered_page = [(3000, Dismiss_timer 0), (3000, Dismiss_timer 1)]"
proof -
  let ?S1 = "perform (Create example_env (js ''Buy milk'')) (fresh_page None)"
  let ?S2 = "perform (Create later_env (js ''Call mom'')) ?S1"
  have e: "setItem_error example_env = None" "setItem_error later_env = None"
    "toLowerCase example_env = ascii_toLowerCase"
    by (simp_all add: example_env_def later_env_def)
  have t: "trim (js ''Buy milk'') \<noteq> []" "trim (js ''Call mom'') \<noteq> []" "trim (js ''call'') \<noteq> []"
    by (simp_all add: example_trims)
  have S0: "this_notes (fresh_page None) = JArr (map note_json [])"
    by (simp add: fresh_page_def)
  note S1 = perform_Create_ok [OF t(1) S0 e(1)]
  note S2 = perform_Create_ok [OF t(2) S1(1) e(2)]
  note S3 = perform_Search_shown [OF t(3) S2(1), of example_env]
  have fp: "filtered_page = perform (Search example_env (js ''call'')) ?S2"
    by (simp add: filtered_page_def run_def)
  have c: "content (new_note later_env (js ''Call mom'')) = js ''Call mom''"
    "content (new_note example_env (js ''Buy milk'')) = js ''Buy milk''"
    by (simp_all add: new_note_def example_trims)
  show "this_notes filtered_page =
     JArr (map note_json [new_note later_env (js ''Call mom''), new_note example_env (js ''Buy milk'')])"
    unfolding fp S3(1) S2(1) by simp
  show "notesContainer filtered_page = rendered [new_note later_env (js ''Call mom'')]"
    unfolding fp S3(3) by (simp add: e c example_call_matches)
  show "timers filtered_page = [(3000, Dismiss_timer 0), (3000, Dismiss_timer 1)]"
    unfolding fp S3(2) S2(3) S2(4) S1(3) S1(4) by (simp add: fresh_page_def)
qed

text \<open>
  C2.  The code does not do what is claimed for every note of the list.  On
  \<open>filtered_page\<close> the note \<open>Buy milk\<close> is in the list and the user confirms, yet
  \<open>deleteNote\<close> finds no element for its identifier and returns with the question
  recorded and nothing else: no timer is scheduled (the two pending ones dismiss notices),
  so the note stays in the list.
\<close>

theorem hidden_note_not_deleted:
  "this_notes filtered_page =
     JArr [note_json (new_note later_env (js ''Call mom'')),
           note_json (new_note example_env (js ''Buy milk''))] \<and>
   note_id (new_note example_env (js ''Buy milk'')) = js ''rs4fzyo82mvyr'' \<and>
   confirm example_env \<and>
   deleteNote example_env (js ''rs4fzyo82mvyr'') filtered_page =
     Inr (filtered_page\<lparr>trace := trace filtered_page @
       [Ev_confirm (js ''Are you sure you want to delete this note?'')]\<rparr>) \<and>
   timers filtered_page = [(3000, Dismiss_timer 0), (3000, Dismiss_timer 1)]"
proof -
  have plain: "selector_plain (js ''rs4fzyo82mvyr'')"
    by (simp add: selector_plain_def js_def is_high_surrogate_def is_low_surrogate_def)
  have "querySelector (js ''rs4fzyo82mvyr'') (notesContainer filtered_page) = None"
    by (simp add: filtered_page_fields rendered_def note_element_def new_note_def
        generateId_examples)
  then have "deleteNote example_env (js ''rs4fzyo82mvyr'') filtered_page =
     Inr (filtered_page\<lparr>trace := trace filtered_page @
       [Ev_confirm (js ''Are you sure you want to delete this note?'')]\<rparr>)"
    using plain by (simp add: deleteNote_def Let_def)
  then show ?thesis
    by (simp add: filtered_page_fields new_note_def generateId_examples)
qed

section \<open>Reading back the text of a list of notes\<close>

lemma unat_digit_char: "d < 16 \<Longrightarrow> unat (digit_char d) = (if d < 10 then 48 + d else 87 + d)"
proof -
  assume d: "d < 16"
  have "unat (of_nat (48 + d) :: jschar) = (48 + d) mod 2 ^ LENGTH(16)"
    "unat (of_nat (87 + d) :: jschar) = (87 + d) mod 2 ^ LENGTH(16)"
    by (rule unat_of_nat)+
  with d show ?thesis
    by (simp add: digit_char_def del: of_nat_add)
qed

lemma hex_value_digit_char: "d < 16 \<Longrightarrow> hex_value (digit_char d) = Some d"
  by (simp add: hex_value_def word_le_nat_alt unat_digit_char)

lemma hex_split:
  fixes n :: nat
  shows "n div 4096 * 4096 + n div 256 mod 16 * 256 + n div 16 mod 16 * 16 + n mod 16 = n"
proof -
  have a: "n = n div 16 * 16 + n mod 16" by simp
  have b: "n div 16 = n div 16 div 16 * 16 + n div 16 mod 16" by simp
  have c: "n div 16 div 16 = n div 16 div 16 div 16 * 16 + n div 16 div 16 mod 16" by simp
  have d: "n div 256 = n div 16 div 16" "n div 4096 = n div 16 div 16 div 16"
    by (simp_all add: div_mult2_eq)
  show ?thesis unfolding d using a b c by linarith
qed

lemma hex4_unicode_digits:
  "hex4 (digit_char (unat c div 4096)) (digit_char (unat c div 256 mod 16))
     (digit_char (unat c div 16 mod 16)) (digit_char (unat c mod 16)) = Some c"
proof -
  have "unat c < 2 ^ LENGTH(16)" by (rule unsigned_less)
  then have d: "unat c div 4096 < 16" by simp
  show ?thesis
    by (simp add: hex4_def hex_value_digit_char d hex_split)
qed

lemma parse_chars_unicode_escape:
  "parse_chars (unicode_escape c @ rest) = map_option (apfst ((#) c)) (parse_chars rest)"
  by (simp add: unicode_escape_def hex4_unicode_digits)


lemma parse_chars_plain:
  "c \<noteq> 0x22 \<Longrightarrow> c \<noteq> 0x5C \<Longrightarrow> \<not> c < 0x20 \<Longrightarrow>
     parse_chars (c # rest) = map_option (apfst ((#) c)) (parse_chars rest)"
  by simp

lemma parse_chars_escaped:
  "unescape e = Some x \<Longrightarrow> e \<noteq> 0x75 \<Longrightarrow>
     parse_chars (0x5C # e # rest) = map_option (apfst ((#) x)) (parse_chars rest)"
  by simp


lemma quote_chars_short:
  "c = 0x08 \<or> c = 0x09 \<or> c = 0x0A \<or> c = 0x0C \<or> c = 0x0D \<or> c = 0x22 \<or> c = 0x5C \<Longrightarrow>
     \<exists>e x. quote_chars (c # cs) = 0x5C # e # quote_chars cs \<and> unescape e = Some x \<and> x = c \<and>
       e \<noteq> 0x75"
  by (elim disjE) (simp_all add: unescape_def)

lemma surrogate_plain:
  "is_high_surrogate c \<or> is_low_surrogate c \<Longrightarrow> c \<noteq> 0x22 \<and> c \<noteq> 0x5C \<and> \<not> c < 0x20"
  by (auto simp: is_high_surrogate_def is_low_surrogate_def word_le_nat_alt word_less_nat_alt)

lemma parse_chars_quote_chars: "parse_chars (quote_chars s @ 0x22 # r) = Some (s, r)"
proof (induction s rule: length_induct)
  case (1 s)
  then have IH: "\<And>t. length t < length s \<Longrightarrow> parse_chars (quote_chars t @ 0x22 # r) = Some (t, r)"
    by blast
  show ?case
  proof (cases s)
    case Nil
    then show ?thesis by simp
  next
    case (Cons c cs)
    have tail: "parse_chars (quote_chars cs @ 0x22 # r) = Some (cs, r)"
      using IH [of cs] Cons by simp
    have escaped: "parse_chars (quote_chars (c # cs) @ 0x22 # r) = Some (c # cs, r)"
      if "quote_chars (c # cs) = unicode_escape c @ quote_chars cs"
      using that tail
      by (simp add: parse_chars_unicode_escape del: quote_chars.simps parse_chars.simps)
    have "parse_chars (quote_chars (c # cs) @ 0x22 # r) = Some (c # cs, r)"
    proof (cases "c = 0x08 \<or> c = 0x09 \<or> c = 0x0A \<or> c = 0x0C \<or> c = 0x0D \<or> c = 0x22 \<or> c = 0x5C")
      case True
      from quote_chars_short [OF this, of cs] obtain e where
        q: "quote_chars (c # cs) = 0x5C # e # quote_chars cs" and u: "unescape e = Some c"
        and e: "e \<noteq> 0x75"
        by blast
      show ?thesis
        using parse_chars_escaped [OF u e] tail
        by (simp add: q del: quote_chars.simps parse_chars.simps)
    next
      case long: False
      show ?thesis
      proof (cases "c < 0x20")
        case True
        then have "quote_chars (c # cs) = unicode_escape c @ quote_chars cs"
          using long by simp
        then show ?thesis by (rule escaped)
      next
        case nc: False
        show ?thesis
        proof (cases "is_high_surrogate c")
          case high: True
          show ?thesis
          proof (cases cs)
            case Nil
            then have "quote_chars (c # cs) = unicode_escape c @ quote_chars cs"
              using long nc high by simp
            then show ?thesis by (rule escaped)
          next
            case ds: (Cons d ds)
            show ?thesis
            proof (cases "is_low_surrogate d")
              case low: True
              have q: "quote_chars (c # d # ds) = c # d # quote_chars ds"
                using long nc high low by simp
              have "parse_chars (quote_chars ds @ 0x22 # r) = Some (ds, r)"
                using IH [of ds] Cons ds by simp
              then have "parse_chars (d # quote_chars ds @ 0x22 # r) = Some (d # ds, r)"
                using surrogate_plain [of d] low
                by (simp add: parse_chars_plain del: quote_chars.simps parse_chars.simps)
              then have "parse_chars (c # d # quote_chars ds @ 0x22 # r) = Some (c # d # ds, r)"
                using surrogate_plain [of c] high
                by (simp add: parse_chars_plain del: quote_chars.simps parse_chars.simps)
              then show ?thesis
                by (simp add: q ds del: quote_chars.simps parse_chars.simps)
            next
              case False
              then have "quote_chars (c # cs) = unicode_escape c @ quote_chars cs"
                using long nc high ds by simp
              then show ?thesis by (rule escaped)
            qed
          qed
        next
          case nh: False
          show ?thesis
          proof (cases "is_low_surrogate c")
            case True
            then have "quote_chars (c # cs) = unicode_escape c @ quote_chars cs"
              using long nc nh by simp
            then show ?thesis by (rule escaped)
          next
            case False
            then have "quote_chars (c # cs) = c # quote_chars cs"
              using long nc nh by simp
            then show ?thesis
              using tail long nc
              by (simp add: parse_chars_plain del: quote_chars.simps parse_chars.simps)
          qed
        qed
      qed
    qed
    then show ?thesis unfolding Cons .
  qed
qed

declare quote_chars.simps [simp del] parse_chars.simps [simp del]
declare parse_value.simps [simp del] parse_elements.simps [simp del] parse_members.simps [simp del]

lemma skip_ws_token [simp]:
  "skip_ws (0x22 # s) = 0x22 # s" "skip_ws (0x2C # s) = 0x2C # s" "skip_ws (0x3A # s) = 0x3A # s"
  "skip_ws (0x5B # s) = 0x5B # s" "skip_ws (0x5D # s) = 0x5D # s"
  "skip_ws (0x7B # s) = 0x7B # s" "skip_ws (0x7D # s) = 0x7D # s"
  "skip_ws [] = []"
  by (simp_all add: skip_ws_def is_json_ws_def)

lemma parse_value_string:
  "parse_value (Suc n) (0x22 # quote_chars s @ 0x22 # r) = Some (JStr s, r)"
  by (simp add: parse_chars_quote_chars parse_value.simps)

lemma parse_members_last:
  "parse_members (Suc (Suc n)) (JSON_quote k @ 0x3A # JSON_quote s @ 0x7D # r) =
     Some ([(k, JStr s)], r)"
  by (simp add: parse_members.simps JSON_quote_def parse_chars_quote_chars parse_value_string)

lemma parse_members_more:
  "parse_members (Suc (Suc n)) (JSON_quote k @ 0x3A # JSON_quote s @ 0x2C # r) =
     map_option (apfst ((#) (k, JStr s))) (parse_members (Suc n) r)"
  by (simp add: parse_members.simps JSON_quote_def parse_chars_quote_chars parse_value_string)

lemma parse_members_strings:
  assumes "kvs \<noteq> []" and "\<forall>kv \<in> set kvs. \<exists>s. snd kv = JStr s"
  shows "parse_members (Suc (length kvs + n)) (stringify_members kvs @ 0x7D # r) = Some (kvs, r)"
  using assms
proof (induction kvs)
  case Nil
  then show ?case by simp
next
  case (Cons kv rest)
  obtain k s where kv: "kv = (k, JStr s)"
    using Cons.prems(2) by (cases kv) auto
  show ?case
  proof (cases "rest = []")
    case True
    then show ?thesis
      by (simp add: kv parse_members_last)
  next
    case False
    have "parse_members (Suc (length rest + n)) (stringify_members rest @ 0x7D # r) = Some (rest, r)"
      using Cons.IH [OF False] Cons.prems(2) by simp
    then show ?thesis
      using False by (simp add: kv parse_members_more)
  qed
qed

lemma create_object_note:
  "create_object [(js ''id'', JStr a), (js ''content'', JStr b), (js ''timestamp'', JStr c),
     (js ''dateCreated'', JStr d)] =
   JObj [(js ''id'', JStr a), (js ''content'', JStr b), (js ''timestamp'', JStr c),
     (js ''dateCreated'', JStr d)]"
  by (simp add: create_object_def)

lemma stringify_note_head:
  "\<exists>t. JSON_stringify (note_json x) = 0x7B # 0x22 # t"
  by (simp add: note_json_def JSON_quote_def)

lemma parse_value_note:
  "parse_value (Suc (Suc (Suc (Suc (Suc (Suc n)))))) (JSON_stringify (note_json x) @ r) =
     Some (note_json x, r)"
proof -
  let ?kvs = "[(js ''id'', JStr (note_id x)), (js ''content'', JStr (content x)),
     (js ''timestamp'', JStr (timestamp x)), (js ''dateCreated'', JStr (dateCreated x))]"
  have "parse_members (Suc (length ?kvs + n)) (stringify_members ?kvs @ 0x7D # r) = Some (?kvs, r)"
    by (rule parse_members_strings) simp_all
  then have m: "parse_members (Suc (Suc (Suc (Suc (Suc n))))) (stringify_members ?kvs @ 0x7D # r) =
      Some (?kvs, r)"
    by simp
  obtain t where t: "stringify_members ?kvs = 0x22 # t"
    by (simp add: JSON_quote_def)
  have "parse_value (Suc (Suc (Suc (Suc (Suc (Suc n)))))) (0x7B # stringify_members ?kvs @ 0x7D # r) =
      Some (create_object ?kvs, r)"
    using m unfolding t by (simp add: parse_value.simps)
  then show ?thesis
    by (simp add: note_json_def create_object_note del: stringify_members.simps)
qed

lemma parse_elements_notes:
  assumes "ns \<noteq> []"
  shows "parse_elements (Suc (Suc (Suc (Suc (Suc (Suc (length ns + n)))))))
           (stringify_elements (map note_json ns) @ 0x5D # r) = Some (map note_json ns, r)"
  using assms
proof (induction ns)
  case Nil
  then show ?case by simp
next
  case (Cons x rest)
  have v: "\<And>r'. parse_value (Suc (Suc (Suc (Suc (Suc (Suc (length rest + n)))))))
      (JSON_stringify (note_json x) @ r') = Some (note_json x, r')"
    by (rule parse_value_note)
  show ?case
  proof (cases "rest = []")
    case True
    then show ?thesis using v by (simp add: parse_elements.simps)
  next
    case False
    have "parse_elements (Suc (Suc (Suc (Suc (Suc (Suc (length rest + n)))))))
        (stringify_elements (map note_json rest) @ 0x5D # r) = Some (map note_json rest, r)"
      using Cons.IH [OF False] .
    then show ?thesis using v False by (simp add: parse_elements.simps)
  qed
qed

lemma length_stringify_elements:
  "length ns \<le> length (stringify_elements (map note_json ns))"
proof (induction ns)
  case Nil
  then show ?case by simp
next
  case (Cons x rest)
  obtain t where "JSON_stringify (note_json x) = 0x7B # 0x22 # t"
    using stringify_note_head by blast
  then show ?case using Cons by simp
qed

lemma parse_value_notes:
  assumes "ns \<noteq> [] \<longrightarrow> length ns + 6 \<le> m"
  shows "parse_value (Suc m) (JSON_stringify (JArr (map note_json ns)) @ r) =
     Some (JArr (map note_json ns), r)"
proof (cases ns)
  case Nil
  then show ?thesis by (simp add: parse_value.simps)
next
  case (Cons x rest)
  then have "length ns + 6 \<le> m" using assms by simp
  then obtain k where "m = (length ns + 6) + k"
    using le_Suc_ex by blast
  then have m: "m = Suc (Suc (Suc (Suc (Suc (Suc (length ns + k))))))"
    by simp
  obtain t where t: "stringify_elements (map note_json ns) = 0x7B # t"
    using stringify_note_head [of x] Cons by auto
  have "parse_elements m (stringify_elements (map note_json ns) @ 0x5D # r) =
      Some (map note_json ns, r)"
    unfolding m using Cons by (intro parse_elements_notes) simp
  then show ?thesis
    by (simp add: parse_value.simps t)
qed

lemma JSON_parse_stringify_notes:
  "JSON_parse (JSON_stringify (JArr (map note_json ns))) = Some (JArr (map note_json ns))"
proof -
  let ?text = "JSON_stringify (JArr (map note_json ns))"
  have "ns \<noteq> [] \<longrightarrow> length ns + 6 \<le> Suc (2 * length ?text)"
    using length_stringify_elements [of ns] by (cases ns) simp_all
  then have "parse_value (Suc (Suc (2 * length ?text))) (?text @ []) = Some (JArr (map note_json ns), [])"
    by (rule parse_value_notes)
  then show ?thesis
    by (simp add: JSON_parse_def del: JSON_stringify.simps)
qed

text \<open>
  The bound of \<open>JSON_parse\<close> is never what makes it fail: a text that the parser reads to
  its end under some bound is read under the bound that \<open>JSON_parse\<close> gives it.
\<close>

lemma skip_ws_shorter: "skip_ws s = c # cs \<Longrightarrow> length cs < length s"
proof -
  assume "skip_ws s = c # cs"
  moreover have "length (skip_ws s) \<le> length s"
    by (simp add: skip_ws_def length_dropWhile_le)
  ultimately show ?thesis by simp
qed

lemma parse_value_shape:
  assumes "skip_ws s = c # cs"
  shows "c = 0x5B \<Longrightarrow> parse_value (Suc n) s =
           (case skip_ws cs of [] \<Rightarrow> None
            | d # ds \<Rightarrow> if d = 0x5D then Some (JArr [], ds)
                else map_option (apfst JArr) (parse_elements n cs))"
    and "c = 0x7B \<Longrightarrow> parse_value (Suc n) s =
           (case skip_ws cs of [] \<Rightarrow> None
            | d # ds \<Rightarrow> if d = 0x7D then Some (JObj [], ds)
                else map_option (apfst create_object) (parse_members n cs))"
    and "c \<noteq> 0x5B \<Longrightarrow> c \<noteq> 0x7B \<Longrightarrow> parse_value (Suc n) s = parse_value (Suc 0) s"
  using assms by (simp_all add: parse_value.simps)

lemma parse_chars_shorter: "parse_chars s = Some (t, r) \<Longrightarrow> length r < length s"
proof (induction s arbitrary: t r rule: length_induct)
  case (1 s)
  then have IH: "\<And>u t r. length u < length s \<Longrightarrow> parse_chars u = Some (t, r) \<Longrightarrow> length r < length u"
    by blast
  from 1(2) show ?case
    by (cases s) (auto simp: parse_chars.simps split: if_splits list.splits option.splits dest!: IH [rotated])
qed

lemma parse_number_shorter: "parse_number s = Some (v, r) \<Longrightarrow> length r < length s"
proof -
  have d: "parse_digits u = Some (k, r') \<Longrightarrow> length r' < length u" for u k r'
    using length_dropWhile_le [of is_digit "tl u"]
    by (cases u) (auto simp: parse_digits_def split: if_splits)
  assume "parse_number s = Some (v, r)"
  then show ?thesis
    by (cases s) (auto simp: parse_number_def split: if_splits option.splits dest!: d)
qed

lemma scalar_shorter:
  assumes "skip_ws s = c # cs" and "c \<noteq> 0x5B" and "c \<noteq> 0x7B"
    and "parse_value (Suc 0) s = Some (v, r)"
  shows "length r < length s"
proof -
  have "length (c # cs) \<le> length s"
    using assms(1) length_dropWhile_le [of is_json_ws s] by (simp add: skip_ws_def)
  moreover have "length r < length (c # cs)"
    using assms parse_chars_shorter [of cs _ r] parse_number_shorter [of "c # cs" v r]
    by (auto simp: parse_value.simps split: if_splits)
  ultimately show ?thesis by simp
qed


lemma enoughD:
  assumes "enough p n" and "p n s = Some (x, r)"
  shows "length r < length s" and "2 * (length s - length r) \<le> m \<Longrightarrow> p m s = Some (x, r)"
proof -
  note * = assms(1) [unfolded enough_def, rule_format, OF assms(2)]
  from * show "length r < length s" by (rule conjunct1)
  from * show "2 * (length s - length r) \<le> m \<Longrightarrow> p m s = Some (x, r)" by blast
qed

lemma enough_elements:
  assumes v: "enough parse_value n" and e: "enough parse_elements n"
  shows "enough parse_elements (Suc n)"
  unfolding enough_def
proof (intro allI impI)
  fix s xs r
  assume A: "parse_elements (Suc n) s = Some (xs, r)"
  then obtain x r1 where pv: "parse_value n s = Some (x, r1)"
    by (auto simp: parse_elements.simps split: option.splits)
  note v1 = enoughD [OF v pv]
  from A pv obtain c cs where sk: "skip_ws r1 = c # cs"
    by (auto simp: parse_elements.simps split: list.splits)
  note cs = skip_ws_shorter [OF sk]
  have body: "parse_elements (Suc k) s =
      (if c = 0x5D then Some ([x], cs)
       else if c = 0x2C then map_option (apfst ((#) x)) (parse_elements k cs) else None)"
    if "parse_value k s = Some (x, r1)" for k
    using that by (simp add: parse_elements.simps sk)
  note A' = A [unfolded body [OF pv]]
  consider (last) "c = 0x5D" | (more) "c \<noteq> 0x5D" "c = 0x2C"
    using A' by (auto split: if_splits)
  then show "length r < length s \<and>
      (\<forall>m. 2 * (length s - length r) \<le> m \<longrightarrow> parse_elements m s = Some (xs, r))"
  proof cases
    case last
    then have r: "cs = r" "xs = [x]"
      using A' by simp_all
    have lr: "length r < length r1" using cs r by simp
    have "parse_elements m s = Some (xs, r)" if big: "2 * (length s - length r) \<le> m" for m
    proof -
      have "0 < m" using big v1(1) lr by linarith
      then obtain k where m: "m = Suc k" by (cases m) auto
      have "2 * (length s - length r1) \<le> k" using big v1(1) lr m by linarith
      then have "parse_value k s = Some (x, r1)" by (rule v1(2))
      from body [OF this] show ?thesis
        using last r by (simp add: m)
    qed
    moreover have "length r < length s" using v1(1) lr by linarith
    ultimately show ?thesis by blast
  next
    case more
    then obtain ys where pe: "parse_elements n cs = Some (ys, r)" and xs: "xs = x # ys"
      using A' by auto
    note e1 = enoughD [OF e pe]
    have "parse_elements m s = Some (xs, r)" if big: "2 * (length s - length r) \<le> m" for m
    proof -
      have "0 < m" using big v1(1) cs e1(1) by linarith
      then obtain k where m: "m = Suc k" by (cases m) auto
      have "2 * (length s - length r1) \<le> k" using big v1(1) cs e1(1) m by linarith
      then have 1: "parse_value k s = Some (x, r1)" by (rule v1(2))
      have "2 * (length cs - length r) \<le> k" using big v1(1) cs e1(1) m by linarith
      then have 2: "parse_elements k cs = Some (ys, r)" by (rule e1(2))
      from body [OF 1] show ?thesis
        using more xs 2 by (simp add: m)
    qed
    moreover have "length r < length s" using v1(1) cs e1(1) by linarith
    ultimately show ?thesis by blast
  qed
qed


lemma enough_members:
  assumes v: "enough parse_value n" and e: "enough parse_members n"
  shows "enough parse_members (Suc n)"
  unfolding enough_def
proof (intro allI impI)
  fix s kvs r
  assume A: "parse_members (Suc n) s = Some (kvs, r)"
  then obtain q s1 k r0 c cs x r1 d ds where
    1: "skip_ws s = q # s1" "q = 0x22" "parse_chars s1 = Some (k, r0)" "skip_ws r0 = c # cs"
      "c = 0x3A" "parse_value n cs = Some (x, r1)" "skip_ws r1 = d # ds"
    by (subst (asm) parse_members.simps) (auto split: list.splits if_splits option.splits)
  note v1 = enoughD [OF v 1(6)]
  have len: "length cs < length s" "length ds < length r1"
    using skip_ws_shorter [OF 1(1)] parse_chars_shorter [OF 1(3)] skip_ws_shorter [OF 1(4)]
      skip_ws_shorter [OF 1(7)]
    by linarith+
  have body: "parse_members (Suc j) s =
      (if d = 0x7D then Some ([(k, x)], ds)
       else if d = 0x2C then map_option (apfst ((#) (k, x))) (parse_members j ds) else None)"
    if "parse_value j cs = Some (x, r1)" for j
    using that by (subst parse_members.simps) (simp add: 1)
  note A' = A [unfolded body [OF 1(6)]]
  consider (last) "d = 0x7D" | (more) "d \<noteq> 0x7D" "d = 0x2C"
    using A' by (auto split: if_splits)
  then show "length r < length s \<and>
      (\<forall>m. 2 * (length s - length r) \<le> m \<longrightarrow> parse_members m s = Some (kvs, r))"
  proof cases
    case last
    then have r: "ds = r" "kvs = [(k, x)]"
      using A' by simp_all
    have lr: "length r < length r1" using len(2) r by simp
    have "parse_members m s = Some (kvs, r)" if big: "2 * (length s - length r) \<le> m" for m
    proof -
      have "0 < m" using big v1(1) lr len(1) by linarith
      then obtain j where m: "m = Suc j" by (cases m) auto
      have "2 * (length cs - length r1) \<le> j" using big v1(1) lr len(1) m by linarith
      then have "parse_value j cs = Some (x, r1)" by (rule v1(2))
      from body [OF this] show ?thesis
        using last r by (simp add: m)
    qed
    moreover have "length r < length s" using v1(1) lr len(1) by linarith
    ultimately show ?thesis by blast
  next
    case more
    then obtain ys where pe: "parse_members n ds = Some (ys, r)" and kvs: "kvs = (k, x) # ys"
      using A' by auto
    note e1 = enoughD [OF e pe]
    have "parse_members m s = Some (kvs, r)" if big: "2 * (length s - length r) \<le> m" for m
    proof -
      have "0 < m" using big v1(1) len e1(1) by linarith
      then obtain j where m: "m = Suc j" by (cases m) auto
      have "2 * (length cs - length r1) \<le> j" using big v1(1) len e1(1) m by linarith
      then have 2: "parse_value j cs = Some (x, r1)" by (rule v1(2))
      have "2 * (length ds - length r) \<le> j" using big v1(1) len e1(1) m by linarith
      then have 3: "parse_members j ds = Some (ys, r)" by (rule e1(2))
      from body [OF 2] show ?thesis
        using more kvs 3 by (simp add: m)
    qed
    moreover have "length r < length s" using v1(1) len e1(1) by linarith
    ultimately show ?thesis by blast
  qed
qed

lemma enough_value:
  assumes e: "enough parse_elements n" and m: "enough parse_members n"
  shows "enough parse_value (Suc n)"
  unfolding enough_def
proof (intro allI impI)
  fix s x r
  assume A: "parse_value (Suc n) s = Some (x, r)"
  then obtain c cs where sk: "skip_ws s = c # cs"
    by (subst (asm) parse_value.simps) (auto split: list.splits)
  note cs = skip_ws_shorter [OF sk]
  consider (arr) "c = 0x5B" | (obj) "c = 0x7B" | (other) "c \<noteq> 0x5B" "c \<noteq> 0x7B"
    by blast
  then show "length r < length s \<and>
      (\<forall>m. 2 * (length s - length r) \<le> m \<longrightarrow> parse_value m s = Some (x, r))"
  proof cases
    case arr
    note shape = parse_value_shape(1) [OF sk arr]
    from A obtain d ds where sk2: "skip_ws cs = d # ds"
      unfolding shape by (auto split: list.splits)
    note ds = skip_ws_shorter [OF sk2]
    show ?thesis
    proof (cases "d = 0x5D")
      case True
      then have r: "ds = r" "x = JArr []" using A unfolding shape by (simp_all add: sk2)
      have "parse_value m s = Some (x, r)" if big: "2 * (length s - length r) \<le> m" for m
      proof -
        have "0 < m" using big cs ds r by auto
        then obtain j where "m = Suc j" by (cases m) auto
        then show ?thesis using True r by (simp add: shape sk2)
      qed
      moreover have "length r < length s" using cs ds r by auto
      ultimately show ?thesis by blast
    next
      case False
      then obtain xs where pe: "parse_elements n cs = Some (xs, r)" and x: "x = JArr xs"
        using A unfolding shape by (auto simp: sk2)
      note e1 = enoughD [OF e pe]
      have "parse_value m s = Some (x, r)" if big: "2 * (length s - length r) \<le> m" for m
      proof -
        have "0 < m" using big cs e1(1) by linarith
        then obtain j where j: "m = Suc j" by (cases m) auto
        have "2 * (length cs - length r) \<le> j" using big cs e1(1) j by linarith
        then have "parse_elements j cs = Some (xs, r)" by (rule e1(2))
        then show ?thesis using False x by (simp add: j shape sk2)
      qed
      moreover have "length r < length s" using cs e1(1) by linarith
      ultimately show ?thesis by blast
    qed
  next
    case obj
    note shape = parse_value_shape(2) [OF sk obj]
    from A obtain d ds where sk2: "skip_ws cs = d # ds"
      unfolding shape by (auto split: list.splits)
    note ds = skip_ws_shorter [OF sk2]
    show ?thesis
    proof (cases "d = 0x7D")
      case True
      then have r: "ds = r" "x = JObj []" using A unfolding shape by (simp_all add: sk2)
      have "parse_value m s = Some (x, r)" if big: "2 * (length s - length r) \<le> m" for m
      proof -
        have "0 < m" using big cs ds r by auto
        then obtain j where "m = Suc j" by (cases m) auto
        then show ?thesis using True r by (simp add: shape sk2)
      qed
      moreover have "length r < length s" using cs ds r by auto
      ultimately show ?thesis by blast
    next
      case False
      then obtain kvs where pe: "parse_members n cs = Some (kvs, r)" and x: "x = create_object kvs"
        using A unfolding shape by (auto simp: sk2)
      note m1 = enoughD [OF m pe]
      have "parse_value m s = Some (x, r)" if big: "2 * (length s - length r) \<le> m" for m
      proof -
        have "0 < m" using big cs m1(1) by linarith
        then obtain j where j: "m = Suc j" by (cases m) auto
        have "2 * (length cs - length r) \<le> j" using big cs m1(1) j by linarith
        then have "parse_members j cs = Some (kvs, r)" by (rule m1(2))
        then show ?thesis using False x by (simp add: j shape sk2)
      qed
      moreover have "length r < length s" using cs m1(1) by linarith
      ultimately show ?thesis by blast
    qed
  next
    case other
    note shape = parse_value_shape(3) [OF sk other]
    have A0: "parse_value (Suc 0) s = Some (x, r)" using A unfolding shape [of n] .
    have lr: "length r < length s" using scalar_shorter [OF sk other A0] .
    have "parse_value m s = Some (x, r)" if big: "2 * (length s - length r) \<le> m" for m
    proof -
      have "0 < m" using big lr by linarith
      then obtain j where "m = Suc j" by (cases m) auto
      then show ?thesis using A0 shape [of j] by simp
    qed
    then show ?thesis using lr by blast
  qed
qed

lemma enough_all:
  "enough parse_value n \<and> enough parse_elements n \<and> enough parse_members n"
proof (induction n)
  case 0
  then show ?case
    by (simp add: enough_def parse_value.simps parse_elements.simps parse_members.simps)
next
  case (Suc n)
  then show ?case
    using enough_value [of n] enough_elements [of n] enough_members [of n] by simp
qed

lemma JSON_parse_any_fuel:
  assumes "parse_value n s = Some (v, r)" and "skip_ws r = []"
  shows "JSON_parse s = Some v"
proof -
  have "enough parse_value n" using enough_all by simp
  from enoughD(2) [OF this assms(1), of "2 * length s + 2"]
  have "parse_value (2 * length s + 2) s = Some (v, r)" by simp
  then show ?thesis using assms(2) by (simp add: JSON_parse_def)
qed

lemma stringify_notes_nonempty: "JSON_stringify (JArr xs) \<noteq> []"
  by simp

lemma loadNotes_stored_notes:
  assumes "getItem_error E = None"
    and "localStorage st = Some (JSON_stringify (JArr (map note_json ns)))"
  shows "this_notes (loadNotes E st) = JArr (map note_json ns)"
    and "localStorage (loadNotes E st) = localStorage st"
  using assms stringify_notes_nonempty [of "map note_json ns"]
  by (simp_all add: loadNotes_def Let_def JSON_parse_stringify_notes del: JSON_stringify.simps)

text \<open>
  C4.  When \<open>this.notes\<close> is a list of notes and \<open>setItem\<close> does not throw, a load that
  finds what \<open>saveToLocalStorage\<close> stored (on any page, a fresh one in particular), and
  whose read does not throw, sets \<open>this.notes\<close> to the same list: the same notes, in the
  same order.
\<close>

theorem persist_then_load:
  assumes "this_notes st = JArr (map note_json ns)"
    and "setItem_error E = None"
    and "getItem_error E' = None"
    and "localStorage st2 = localStorage (saveToLocalStorage E st)"
  shows "this_notes (loadNotes E' st2) = this_notes st \<and>
         this_notes (loadNotes E' (fresh_page (localStorage (saveToLocalStorage E st)))) =
           this_notes st"
proof -
  have stored: "localStorage (saveToLocalStorage E st) = Some (JSON_stringify (JArr (map note_json ns)))"
    using assms(1,2) by (simp add: saveToLocalStorage_ok del: JSON_stringify.simps)
  have "this_notes (loadNotes E' st2) = JArr (map note_json ns)"
    using assms(3,4) stored by (intro loadNotes_stored_notes) simp_all
  moreover have "this_notes (loadNotes E' (fresh_page (localStorage (saveToLocalStorage E st)))) =
      JArr (map note_json ns)"
    using assms(3) stored by (intro loadNotes_stored_notes) (simp_all add: fresh_page_def)
  ultimately show ?thesis using assms(1) by simp
qed

theorem persist_then_load_witness:
  "this_notes (loadNotes example_env (fresh_page (localStorage (saveToLocalStorage example_env
      ((fresh_page None)\<lparr>this_notes := JArr (map note_json
         [example_note (js ''k2'') (js ''World''), example_note (js ''k1'') (js ''Hello'')])\<rparr>))))) =
     JArr (map note_json
       [example_note (js ''k2'') (js ''World''), example_note (js ''k1'') (js ''Hello'')])"
  using persist_then_load [of
      "(fresh_page None)\<lparr>this_notes := JArr (map note_json
         [example_note (js ''k2'') (js ''World''), example_note (js ''k1'') (js ''Hello'')])\<rparr>"
      "[example_note (js ''k2'') (js ''World''), example_note (js ''k1'') (js ''Hello'')]"
      example_env example_env
      "fresh_page (localStorage (saveToLocalStorage example_env
        ((fresh_page None)\<lparr>this_notes := JArr (map note_json
         [example_note (js ''k2'') (js ''World''), example_note (js ''k1'') (js ''Hello'')])\<rparr>)))"]
  by (simp add: fresh_page_def del: JSON_stringify.simps)

section \<open>Identifiers on the pages built from the empty one\<close>

lemma ids_of_notes:
  "ids_of (JArr (map note_json ns)) = map (\<lambda>n. Inr (Some (JStr (note_id n)))) ns"
  by (simp add: ids_of_def note_properties comp_def)

lemma distinct_notes_ids: "distinct_notes v \<Longrightarrow> distinct (ids_of v)"
  by (auto simp: distinct_notes_def ids_of_notes distinct_map inj_on_def)

lemma distinct_notes_Nil: "distinct_notes (JArr [])"
  unfolding distinct_notes_def by (rule exI [of _ "[]"]) simp

lemma page_invariant_fresh: "page_invariant (fresh_page None)"
  by (simp add: page_invariant_def fresh_page_def distinct_notes_Nil)

lemma saveToLocalStorage_storage:
  "localStorage (saveToLocalStorage E st) =
     (case setItem_error E of None \<Rightarrow> Some (JSON_stringify (this_notes st))
      | Some e \<Rightarrow> localStorage st)"
  by (simp add: saveToLocalStorage_def Let_def split: option.split)

lemma page_invariant_persist:
  assumes "page_invariant st" and "distinct_notes v"
  shows "page_invariant (saveToLocalStorage E (st\<lparr>this_notes := v\<rparr>))"
  using assms
  by (auto simp: page_invariant_def saveToLocalStorage_storage split: option.splits
      simp del: JSON_stringify.simps)

lemma page_invariant_same:
  assumes "page_invariant st" and "this_notes st' = this_notes st"
    and "localStorage st' = localStorage st"
  shows "page_invariant st'"
  using assms by (simp add: page_invariant_def)

lemma page_invariant_load:
  assumes "page_invariant st"
  shows "page_invariant (loadNotes E st)"
proof (cases "getItem_error E")
  case (Some e)
  then show ?thesis
    using assms by (simp add: loadNotes_def Let_def page_invariant_def distinct_notes_Nil)
next
  case None
  show ?thesis
  proof (cases "localStorage st")
    case empty: None
    then show ?thesis
      using assms None by (simp add: loadNotes_def Let_def page_invariant_def)
  next
    case (Some stored)
    then obtain ns where stored: "stored = JSON_stringify (JArr (map note_json ns))"
      and d: "distinct (map note_id ns)"
      using assms by (auto simp: page_invariant_def distinct_notes_def)
    have "this_notes (loadNotes E st) = JArr (map note_json ns)"
      "localStorage (loadNotes E st) = localStorage st"
      using loadNotes_stored_notes [OF None, of st ns] Some stored by simp_all
    then show ?thesis
      using assms d by (auto simp: page_invariant_def distinct_notes_def)
  qed
qed

lemma showNotes_same:
  assumes "this_notes st = JArr (map note_json ns)"
  shows "this_notes (state_of (showNotes st)) = this_notes st"
    and "localStorage (state_of (showNotes st)) = localStorage st"
  using showNotes_note_list [OF assms] by (simp_all add: state_of_def)

lemma searchNotes_same:
  assumes "this_notes st = JArr (map note_json ns)"
  shows "this_notes (state_of (searchNotes E q st)) = this_notes st"
    and "localStorage (state_of (searchNotes E q st)) = localStorage st"
proof -
  have "this_notes (state_of (searchNotes E q st)) = this_notes st \<and>
      localStorage (state_of (searchNotes E q st)) = localStorage st"
  proof (cases "trim q = []")
    case True
    then show ?thesis using showNotes_same [OF assms] by (simp add: searchNotes_def)
  next
    case False
    then show ?thesis using searchNotes_note_list [OF False assms, of E]
      by (simp add: state_of_def)
  qed
  then show "this_notes (state_of (searchNotes E q st)) = this_notes st"
    and "localStorage (state_of (searchNotes E q st)) = localStorage st"
    by simp_all
qed

lemma deleteNote_storage: "localStorage (state_of (deleteNote E x st)) = localStorage st"
  by (simp add: deleteNote_def state_of_def Let_def split: option.split)

lemma delete_callback_result:
  assumes "this_notes st = JArr (map note_json ns)"
  shows "delete_callback E x st =
     Inr (showMessage (js ''Note deleted successfully!'') (js ''success'')
       ((clear_container (saveToLocalStorage E
          (st\<lparr>this_notes := JArr (map note_json (filter (\<lambda>m. note_id m \<noteq> x) ns))\<rparr>)))
        \<lparr>notesContainer :=
           (if filter (\<lambda>m. note_id m \<noteq> x) ns = [] then [Markup empty_state_markup]
            else rendered (filter (\<lambda>m. note_id m \<noteq> x) ns))\<rparr>))"
proof -
  let ?kept = "filter (\<lambda>m. note_id m \<noteq> x) ns"
  let ?st1 = "saveToLocalStorage E (st\<lparr>this_notes := JArr (map note_json ?kept)\<rparr>)"
  have "this_notes ?st1 = JArr (map note_json ?kept)" by simp
  from showNotes_note_list [OF this] show ?thesis
    using assms
    by (simp add: delete_callback_def as_array_def filter_other_ids_note_list)
qed

lemma page_invariant_delete_callback:
  assumes "page_invariant st"
  shows "page_invariant (state_of (delete_callback E x st))"
proof -
  obtain ns where ns: "this_notes st = JArr (map note_json ns)" and d: "distinct (map note_id ns)"
    using assms by (auto simp: page_invariant_def distinct_notes_def)
  let ?kept = "filter (\<lambda>m. note_id m \<noteq> x) ns"
  have "distinct (map note_id ?kept)"
    using d by (simp add: distinct_map_filter)
  then have "distinct_notes (JArr (map note_json ?kept))"
    by (auto simp: distinct_notes_def)
  from page_invariant_persist [OF assms this, of E]
  show ?thesis
    unfolding delete_callback_result [OF ns] state_of_def
    by (simp add: page_invariant_def)
qed

lemma page_invariant_timers:
  "page_invariant (st\<lparr>timers := ts\<rparr>) = page_invariant st"
  by (simp add: page_invariant_def)

lemma page_invariant_fire:
  assumes "page_invariant st"
  shows "page_invariant (state_of (fire_timer E i st))"
proof (cases "i < length (timers st)")
  case False
  then show ?thesis using assms by (simp add: fire_timer_def state_of_def)
next
  case True
  let ?st1 = "st\<lparr>timers := take i (timers st) @ drop (Suc i) (timers st)\<rparr>"
  have inv1: "page_invariant ?st1" using assms by (simp add: page_invariant_timers)
  show ?thesis
  proof (cases "snd (timers st ! i)")
    case (Delete_timer x)
    then show ?thesis
      using True page_invariant_delete_callback [OF inv1, of E x]
      by (simp add: fire_timer_def Let_def)
  next
    case (Dismiss_timer r)
    then show ?thesis
      using True inv1
      by (simp add: fire_timer_def Let_def state_of_def dismiss_callback_def page_invariant_def)
  next
    case (Remove_timer r)
    then show ?thesis
      using True inv1
      by (simp add: fire_timer_def Let_def state_of_def remove_callback_def page_invariant_def)
  qed
qed

lemma page_invariant_create:
  assumes "page_invariant st"
    and "trim text = [] \<or> Inr (Some (JStr (generateId E))) \<notin> set (ids_of (this_notes st))"
  shows "page_invariant (perform (Create E text) st)"
proof (cases "trim text = []")
  case True
  then have "saveNote E (st\<lparr>noteInput_value := text\<rparr>) =
      Inr (showMessage (js ''Please enter a note before adding!'') (js ''error'')
        (st\<lparr>noteInput_value := text\<rparr>))"
    by (simp add: saveNote_def)
  then show ?thesis
    using assms(1) by (simp add: perform_def state_of_def page_invariant_def)
next
  case False
  obtain ns where ns: "this_notes st = JArr (map note_json ns)" and d: "distinct (map note_id ns)"
    using assms(1) by (auto simp: page_invariant_def distinct_notes_def)
  have "generateId E \<notin> note_id ` set ns"
    using assms(2) False by (auto simp: ns ids_of_notes)
  then have "distinct (map note_id (new_note E text # ns))"
    using d by (simp add: new_note_def)
  then have dn: "distinct_notes (JArr (map note_json (new_note E text # ns)))"
    unfolding distinct_notes_def by blast
  have inv0: "page_invariant (st\<lparr>noteInput_value := text\<rparr>)"
    using assms(1) by (simp add: page_invariant_def)
  have "saveNote E (st\<lparr>noteInput_value := text\<rparr>) =
     Inr (showMessage (js ''Note added successfully!'') (js ''success'')
       (clearInput ((clear_container (saveToLocalStorage E
          (st\<lparr>noteInput_value := text, this_notes := JArr (map note_json (new_note E text # ns))\<rparr>)))
        \<lparr>notesContainer := rendered (new_note E text # ns)\<rparr>)))"
    using saveNote_note_list [of "st\<lparr>noteInput_value := text\<rparr>" ns E] False ns by simp
  then show ?thesis
    using page_invariant_persist [OF inv0 dn, of E]
    by (simp add: perform_def state_of_def page_invariant_def)
qed

lemma page_invariant_perform:
  assumes "page_invariant st"
    and "case a of Create E text \<Rightarrow>
           trim text = [] \<or> Inr (Some (JStr (generateId E))) \<notin> set (ids_of (this_notes st))
         | _ \<Rightarrow> True"
  shows "page_invariant (perform a st)"
proof -
  obtain ns where ns: "this_notes st = JArr (map note_json ns)"
    using assms(1) by (auto simp: page_invariant_def distinct_notes_def)
  show ?thesis
  proof (cases a)
    case (Create E t)
    then show ?thesis using assms page_invariant_create by simp
  next
    case (Delete E x)
    then show ?thesis
      using page_invariant_same [OF assms(1) deleteNote_this_notes deleteNote_storage]
      by (simp add: perform_def)
  next
    case (Fire E i)
    then show ?thesis using page_invariant_fire [OF assms(1)] by (simp add: perform_def)
  next
    case (Search E q)
    then show ?thesis
      using page_invariant_same [OF assms(1) searchNotes_same [OF ns]]
      by (simp add: perform_def)
  next
    case (Persist E)
    have "distinct_notes (this_notes st)" using assms(1) by (simp add: page_invariant_def)
    from page_invariant_persist [OF assms(1) this, of E]
    show ?thesis using Persist by (simp add: perform_def)
  next
    case (Load E)
    then show ?thesis using page_invariant_load [OF assms(1)] by (simp add: perform_def)
  qed
qed

lemma page_invariant_run:
  "page_invariant st \<Longrightarrow> fresh_ids as st \<Longrightarrow> page_invariant (run as st)"
proof (induction as arbitrary: st)
  case Nil
  then show ?case by (simp add: run_def)
next
  case (Cons a as)
  have "page_invariant (perform a st)"
    using Cons.prems by (intro page_invariant_perform) simp_all
  moreover have "fresh_ids as (perform a st)" using Cons.prems(2) by simp
  ultimately have "page_invariant (run as (perform a st))" by (rule Cons.IH)
  then show ?case by (simp add: run_def)
qed

text \<open>
  C7, as amended.  On every page built from the empty one by creates, deletes, timers,
  searches, persists and loads in which each create drew an identifier that no note of the
  list had at that moment, no two notes of the list share an identifier.
\<close>

theorem fresh_ids_stay_distinct:
  assumes "fresh_ids as (fresh_page None)"
  shows "distinct (ids_of (this_notes (run as (fresh_page None))))"
  using page_invariant_run [OF page_invariant_fresh assms]
  by (simp add: page_invariant_def distinct_notes_ids)


lemma example_trims_more:
  "trim (js ''a'') \<noteq> []" "trim (js ''b'') \<noteq> []" "trim (js ''Hello'') \<noteq> []"
  "trim (js ''World'') \<noteq> []"
  by (simp_all add: trim_def js_def is_white_space_def)

text \<open>
  C7 as stated fails: two creates that read the same clock and draw the same number give
  two notes with one identifier.
\<close>

theorem same_draw_same_id:
  "\<not> distinct (ids_of (this_notes
      (run [Create example_env (js ''a''), Create example_env (js ''b'')] (fresh_page None))))"
proof -
  have S0: "this_notes (fresh_page None) = JArr (map note_json [])"
    by (simp add: fresh_page_def)
  note S1 = perform_Create_ok [OF example_trims_more(1) S0 example_env_fields(2)]
  note S2 = perform_Create_ok [OF example_trims_more(2) S1(1) example_env_fields(2)]
  have "run [Create example_env (js ''a''), Create example_env (js ''b'')] (fresh_page None) =
      perform (Create example_env (js ''b'')) (perform (Create example_env (js ''a'')) (fresh_page None))"
    by (simp add: run_def)
  then show ?thesis
    by (simp add: S2(1) ids_of_def note_properties new_note_def)
qed

theorem fresh_ids_stay_distinct_witness:
  "fresh_ids [Create example_env (js ''Hello''), Create later_env (js ''World''),
      Persist example_env, Load example_env] (fresh_page None) \<and>
   distinct (ids_of (this_notes
      (run [Create example_env (js ''Hello''), Create later_env (js ''World''),
        Persist example_env, Load example_env] (fresh_page None))))"
proof -
  have S0: "this_notes (fresh_page None) = JArr (map note_json [])"
    by (simp add: fresh_page_def)
  note S1 = perform_Create_ok [OF example_trims_more(3) S0 example_env_fields(2)]
  have "fresh_ids [Create example_env (js ''Hello''), Create later_env (js ''World''),
      Persist example_env, Load example_env] (fresh_page None)"
    by (simp add: S1(1) ids_of_def note_properties new_note_def generateId_examples S0)
  then show ?thesis
    using fresh_ids_stay_distinct by blast
qed

section \<open>A failed write under saveNote and the delete timer\<close>

lemma showMessage_messages:
  "body_messages (showMessage m t st) =
     (case body_messages st of [] \<Rightarrow> [] | existing # ms \<Rightarrow> ms) @
     [\<lparr>ref = next_ref st, className = js ''message message-'' @ t,
       background = (if t = js ''success'' then js ''#2ed573''
         else if t = js ''error'' then js ''#ff4757'' else js ''#5352ed''),
       textContent = m, animation = js ''slideInRight 0.3s ease-out''\<rparr>]"
  by (simp add: showMessage_def Let_def)

lemma showMessage_success_alone:
  assumes "length (body_messages st) \<le> 1"
  shows "body_messages (showMessage m (js ''success'') st) = [success_notice (next_ref st) m]"
  using assms
  by (cases "body_messages st")
    (simp_all add: showMessage_messages success_notice_def js_append [symmetric])

lemma saveToLocalStorage_failed:
  assumes "setItem_error E = Some e"
  shows "saveToLocalStorage E st =
     showMessage (js ''Error saving notes. Storage might be full.'') (js ''error'')
       (st\<lparr>trace := trace st @
          [Ev_setItem (js ''notesApp'') (JSON_stringify (this_notes st)),
           Ev_console_error (js ''Error saving notes to localStorage:'')]\<rparr>)"
  using assms by (simp add: saveToLocalStorage_def Let_def)

lemma failed_messages:
  assumes "setItem_error E = Some e" and "length (body_messages st) \<le> 1"
  shows "body_messages (saveToLocalStorage E st) =
      [error_notice (next_ref st) (js ''Error saving notes. Storage might be full.'')]"
    and "next_ref (saveToLocalStorage E st) = Suc (next_ref st)"
    and "localStorage (saveToLocalStorage E st) = localStorage st"
  using assms
  by (cases "body_messages st";
      simp add: saveToLocalStorage_failed showMessage_messages error_notice_def
        js_append [symmetric])+

text \<open>
  C8.  When \<open>setItem\<close> throws, the exception is caught and logged, the list in memory
  keeps the change and \<open>saveToLocalStorage\<close> returns with the error notice on the page.
  Both callers then show their success notice in the same turn, and \<open>showMessage\<close>
  removes the notice it finds: after \<open>saveNote\<close>, and after the timer of \<open>deleteNote\<close>, the
  page holds the success notice alone, so the failure is not what the user is shown.
\<close>

theorem failed_persist_notice_replaced:
  assumes "this_notes st = JArr (map note_json ns)"
    and "setItem_error E = Some e"
    and "length (body_messages st) \<le> 1"
  shows "body_messages (saveToLocalStorage E st) =
           [error_notice (next_ref st) (js ''Error saving notes. Storage might be full.'')] \<and>
         (trim (noteInput_value st) \<noteq> [] \<longrightarrow>
           (\<exists>st'. saveNote E st = Inr st' \<and>
              this_notes st' = JArr (map note_json (new_note E (noteInput_value st) # ns)) \<and>
              localStorage st' = localStorage st \<and>
              trace st' = trace st @
                [Ev_setItem (js ''notesApp'')
                   (JSON_stringify (JArr (map note_json (new_note E (noteInput_value st) # ns)))),
                 Ev_console_error (js ''Error saving notes to localStorage:''),
                 Ev_clear_container, Ev_focus] \<and>
              body_messages st' =
                [success_notice (Suc (next_ref st)) (js ''Note added successfully!'')])) \<and>
         (\<exists>st'. delete_callback E x st = Inr st' \<and>
            this_notes st' = JArr (map note_json (filter (\<lambda>m. note_id m \<noteq> x) ns)) \<and>
            localStorage st' = localStorage st \<and>
            body_messages st' =
              [success_notice (Suc (next_ref st)) (js ''Note deleted successfully!'')])"
proof (intro conjI impI)
  show "body_messages (saveToLocalStorage E st) =
      [error_notice (next_ref st) (js ''Error saving notes. Storage might be full.'')]"
    using failed_messages(1) [OF assms(2,3)] .
next
  assume blank: "trim (noteInput_value st) \<noteq> []"
  let ?st0 = "st\<lparr>this_notes := JArr (map note_json (new_note E (noteInput_value st) # ns))\<rparr>"
  have len: "length (body_messages ?st0) \<le> 1" using assms(3) by simp
  note f = failed_messages [OF assms(2) len]
  let ?st2 = "clearInput ((clear_container (saveToLocalStorage E ?st0))
      \<lparr>notesContainer := rendered (new_note E (noteInput_value st) # ns)\<rparr>)"
  have "length (body_messages ?st2) \<le> 1" "next_ref ?st2 = Suc (next_ref st)"
    using f by simp_all
  from showMessage_success_alone [OF this(1), of "js ''Note added successfully!''"] this(2)
  have "body_messages (showMessage (js ''Note added successfully!'') (js ''success'') ?st2) =
      [success_notice (Suc (next_ref st)) (js ''Note added successfully!'')]"
    by simp
  then show "\<exists>st'. saveNote E st = Inr st' \<and>
      this_notes st' = JArr (map note_json (new_note E (noteInput_value st) # ns)) \<and>
      localStorage st' = localStorage st \<and>
      trace st' = trace st @
        [Ev_setItem (js ''notesApp'')
           (JSON_stringify (JArr (map note_json (new_note E (noteInput_value st) # ns)))),
         Ev_console_error (js ''Error saving notes to localStorage:''),
         Ev_clear_container, Ev_focus] \<and>
      body_messages st' = [success_notice (Suc (next_ref st)) (js ''Note added successfully!'')]"
    using saveNote_note_list [OF blank assms(1), of E] f(3) assms(2)
    by (simp add: clearInput_def saveToLocalStorage_trace del: JSON_stringify.simps)
next
  let ?kept = "filter (\<lambda>m. note_id m \<noteq> x) ns"
  let ?st0 = "st\<lparr>this_notes := JArr (map note_json ?kept)\<rparr>"
  have len: "length (body_messages ?st0) \<le> 1" using assms(3) by simp
  note f = failed_messages [OF assms(2) len]
  let ?st2 = "(clear_container (saveToLocalStorage E ?st0))
      \<lparr>notesContainer :=
         (if ?kept = [] then [Markup empty_state_markup] else rendered ?kept)\<rparr>"
  have "length (body_messages ?st2) \<le> 1" "next_ref ?st2 = Suc (next_ref st)"
    using f by simp_all
  from showMessage_success_alone [OF this(1), of "js ''Note deleted successfully!''"] this(2)
  have "body_messages (showMessage (js ''Note deleted successfully!'') (js ''success'') ?st2) =
      [success_notice (Suc (next_ref st)) (js ''Note deleted successfully!'')]"
    by simp
  then show "\<exists>st'. delete_callback E x st = Inr st' \<and>
      this_notes st' = JArr (map note_json ?kept) \<and>
      localStorage st' = localStorage st \<and>
      body_messages st' = [success_notice (Suc (next_ref st)) (js ''Note deleted successfully!'')]"
    using delete_callback_result [OF assms(1), of E x] f(3)
    by simp
qed

theorem failed_persist_notice_replaced_witness:
  "\<exists>st'. saveNote (example_env\<lparr>setItem_error := Some QuotaExceededError\<rparr>)
       ((fresh_page None)\<lparr>noteInput_value := js ''Hello''\<rparr>) = Inr st' \<and>
     this_notes st' = JArr [note_json (new_note
       (example_env\<lparr>setItem_error := Some QuotaExceededError\<rparr>) (js ''Hello''))] \<and>
     localStorage st' = None \<and>
     body_messages st' = [success_notice 1 (js ''Note added successfully!'')]"
proof -
  let ?E = "example_env\<lparr>setItem_error := Some QuotaExceededError\<rparr>"
  let ?st = "(fresh_page None)\<lparr>noteInput_value := js ''Hello''\<rparr>"
  have "this_notes ?st = JArr (map note_json [])" "setItem_error ?E = Some QuotaExceededError"
    "length (body_messages ?st) \<le> 1" "trim (noteInput_value ?st) \<noteq> []"
    "next_ref ?st = 0" "localStorage ?st = None" "noteInput_value ?st = js ''Hello''"
    by (simp_all add: fresh_page_def example_trims_more)
  with failed_persist_notice_replaced [of ?st "[]" ?E QuotaExceededError]
  show ?thesis by (auto simp del: JSON_stringify.simps)
qed

end
